theory Spec2Isabelle
  imports Complex_Main "HOL-Library.AList"
begin

section \<open>Data model of the node driver (riteraft/raft\_node.py)\<close>

text \<open>
  Byte strings are lists of characters (a \<^typ>\<open>char\<close> is one byte). A reply channel
  (an \<open>asyncio.Queue\<close> created by the client) is identified by a number. A peer
  address is the integer that \<open>decode_u64\<close> yields; \<open>str(v.addr)\<close> renders it and the
  rendering is not modelled further, so replies carry the address itself.
\<close>

type_synonym bytes = string
type_synonym chan = nat
type_synonym addr = nat

datatype raft_client = RaftClient (client_addr: addr)

datatype message = Message (get_from: nat) (get_to: nat) (msg_payload: bytes)

datatype entry_type = EntryNormal | EntryConfChange | EntryConfChangeV2

record entry =
  get_entry_type :: entry_type
  get_data :: bytes
  get_context :: bytes

datatype conf_change_type = AddNode | RemoveNode | AddLearnerNode

record conf_change =
  get_node_id :: nat
  get_change_type :: conf_change_type
  cc_context :: bytes

record snapshot =
  snap_data :: bytes
  snap_index :: nat
  snap_term :: nat
  snap_voters :: "nat list"

definition snapshot_default :: snapshot where
  "snapshot_default = \<lparr>snap_data = [], snap_index = 0, snap_term = 0, snap_voters = []\<rparr>"

record hard_state =
  hs_term :: nat
  hs_vote :: nat
  hs_commit :: nat

type_synonym conf_state = "nat list"

datatype raft_resp =
    RaftRespWrongLeader nat addr
  | RaftRespResponse bytes
  | RaftRespJoinSuccess nat "(nat \<times> addr) list"
  | RaftRespOk
  | RaftRespIdReserved nat

datatype request =
    MessageConfigChange conf_change chan
  | MessagePropose bytes chan
  | MessageRequestId chan
  | MessageRaft message
  | MessageReportUnreachable nat

record ready =
  rd_messages :: "message list"
  rd_snapshot :: snapshot
  rd_committed_entries :: "entry list"
  rd_entries :: "entry list"
  rd_hs :: "hard_state option"
  rd_persisted_messages :: "message list"

record light_ready =
  lrd_commit_index :: "nat option"
  lrd_messages :: "message list"
  lrd_committed_entries :: "entry list"

text \<open>
  Every call the driver makes on a collaborator outside the class (the user's store, the
  storage handle, the \<open>RawNode\<close>, a reply channel, the task scheduler, the inbound queue,
  the clock) is recorded, in program order, as one event.
\<close>

datatype event =
    StoreApply bytes
  | StoreSnapshot
  | StoreRestore bytes
  | Compact nat
  | CreateSnapshot bytes
  | SetConfState conf_state
  | ApplySnapshot snapshot
  | Append "entry list"
  | SetHardState hard_state
  | SetHardStateCommit nat
  | Put chan raft_resp
  | CreateTask nat raft_client message
  | Propose bytes bytes
  | ProposeConfChange bytes conf_change
  | Step message
  | ReportUnreachable nat
  | Tick
  | ApplyConfChange conf_change
  | TakeReady
  | Advance
  | AdvanceApply
  | ChanGet
  | TimeTime

text \<open>
  What a collaborator returns is a parameter of the model: a function of the history of
  events so far (and of the call's arguments). The codecs of \<open>riteraft.utils\<close> and of
  the protobuf \<open>ConfChange\<close> are parameters too; \<open>None\<close> is a decoding that raises.
\<close>

record env =
  decode_u64 :: "bytes \<Rightarrow> nat option"
  encode_u64 :: "nat \<Rightarrow> bytes"
  conf_change_decode :: "bytes \<Rightarrow> conf_change option"
  store_apply :: "event list \<Rightarrow> bytes \<Rightarrow> bytes"
  store_snapshot :: "event list \<Rightarrow> bytes"
  time_time :: "event list \<Rightarrow> real"
  get_applied :: "event list \<Rightarrow> nat"
  apply_conf_change :: "event list \<Rightarrow> conf_change \<Rightarrow> conf_state option"
  get_leader_id :: "event list \<Rightarrow> nat"
  raw_ready :: "event list \<Rightarrow> ready option"
  raw_advance :: "event list \<Rightarrow> light_ready"
  chan_get :: "event list \<Rightarrow> request option"

text \<open>
  The fields of \<open>RaftNode\<close> that the driver itself mutates, the dictionary
  \<open>client_senders\<close> (local to \<open>run\<close> and handed by reference to the handlers), and the
  history. Dictionaries are association lists in insertion order: \<open>d[k] = v\<close> is
  \<^const>\<open>AList.update\<close>, \<open>d.pop(k)\<close> is \<^const>\<open>AList.delete\<close>, \<open>d.get(k)\<close> is
  \<^const>\<open>map_of\<close>. A peer entry \<open>None\<close> is a reserved id.
\<close>

record raft_node =
  node_id :: nat
  peers :: "(nat \<times> raft_client option) list"
  should_quit :: bool
  seq :: nat
  last_snap_time :: real
  client_senders :: "(nat \<times> chan) list"
  trace :: "event list"

datatype error =
    KeyError | AttributeError | NotImplementedError | DecodeError
  | AssertionError | UnknownError | TimeoutError

datatype outcome = Done raft_node | Raised error raft_node

fun final :: "outcome \<Rightarrow> raft_node" where
  "final (Done n) = n"
| "final (Raised e n) = n"

definition emit :: "event list \<Rightarrow> raft_node \<Rightarrow> raft_node" where
  "emit es n = n\<lparr>trace := trace n @ es\<rparr>"

section \<open>Peer registry\<close>

text \<open>\<open>RaftNode.is_leader\<close>: \<open>self.id() == self.leader()\<close>.\<close>

definition is_leader :: "env \<Rightarrow> raft_node \<Rightarrow> bool" where
  "is_leader ev n = (node_id n = get_leader_id ev (trace n))"

text \<open>
  \<open>RaftNode.peer_addrs\<close>: the comprehension reads \<open>v.addr\<close> of every value in insertion
  order; on the first \<open>None\<close> it raises \<open>AttributeError\<close>.
\<close>

fun peer_addrs_of :: "(nat \<times> raft_client option) list \<Rightarrow> error + (nat \<times> addr) list" where
  "peer_addrs_of [] = Inr []"
| "peer_addrs_of ((k, None) # ps) = Inl AttributeError"
| "peer_addrs_of ((k, Some c) # ps) =
     (case peer_addrs_of ps of Inl e \<Rightarrow> Inl e | Inr r \<Rightarrow> Inr ((k, client_addr c) # r))"

definition peer_addrs :: "raft_node \<Rightarrow> error + (nat \<times> addr) list" where
  "peer_addrs n = peer_addrs_of (peers n)"

text \<open>
  \<open>RaftNode.reserve_next_peer_id\<close>. \<open>any(self.peers)\<close> holds when some key is non-zero;
  \<open>max(self.peers.keys())\<close> is then taken over a non-empty dictionary.
\<close>

definition reserve_next_peer_id :: "raft_node \<Rightarrow> nat \<times> raft_node" where
  "reserve_next_peer_id n =
     (let ks = map fst (peers n);
          next_id = (if list_ex (\<lambda>k. k \<noteq> 0) ks then Max (set ks) else 1);
          next_id = max (next_id + 1) (node_id n)
      in (next_id, n\<lparr>peers := AList.update next_id None (peers n)\<rparr>))"

text \<open>
  \<open>RaftNode.send_messages\<close>: \<open>self.peers.get(msg.get_to())\<close> is \<open>None\<close> for an absent
  id and for a reserved one; only a client object passes the \<open>if\<close> and gets a sender task.
\<close>

fun send_messages :: "message list \<Rightarrow> raft_node \<Rightarrow> raft_node" where
  "send_messages [] n = n"
| "send_messages (msg # msgs) n =
     (case map_of (peers n) (get_to msg) of
        Some (Some client) \<Rightarrow> send_messages msgs (emit [CreateTask (get_to msg) client msg] n)
      | _ \<Rightarrow> send_messages msgs n)"

text \<open>
  \<open>RaftNode.send_wrong_leader\<close>: \<open>self.peers[leader_id]\<close> raises \<open>KeyError\<close> when the
  leader's id is not a key, and \<open>.addr\<close> raises \<open>AttributeError\<close> on a reserved entry.
\<close>

definition send_wrong_leader :: "env \<Rightarrow> chan \<Rightarrow> raft_node \<Rightarrow> outcome" where
  "send_wrong_leader ev channel n =
     (let leader_id = get_leader_id ev (trace n)
      in case map_of (peers n) leader_id of
           None \<Rightarrow> Raised KeyError n
         | Some None \<Rightarrow> Raised AttributeError n
         | Some (Some c) \<Rightarrow>
             Done (emit [Put channel (RaftRespWrongLeader leader_id (client_addr c))] n))"

section \<open>Committed entries\<close>

text \<open>
  \<open>senders.pop(seq, None)\<close> followed by the \<open>if sender := ...\<close> test: a queue object is
  always true, so the branch is taken exactly when the key was present.
\<close>

definition pop_sender :: "nat \<Rightarrow> raft_node \<Rightarrow> chan option \<times> raft_node" where
  "pop_sender sq n =
     (map_of (client_senders n) sq,
      n\<lparr>client_senders := AList.delete sq (client_senders n)\<rparr>)"

text \<open>
  The snapshot block shared, statement for statement, by both handlers:
  \<open>get_applied()\<close>, \<open>await self.store.snapshot()\<close>, then the storage calls in the order
  the source issues them. \<open>pre\<close> is the conf-change handler's \<open>set_conf_state(cs)\<close>.
\<close>

definition snapshot_and_compact :: "env \<Rightarrow> event list \<Rightarrow> raft_node \<Rightarrow> raft_node" where
  "snapshot_and_compact ev pre n =
     (let last_applied = get_applied ev (trace n);
          snapshot = store_snapshot ev (trace n);
          n1 = emit [StoreSnapshot] n
      in emit (pre @ [Compact last_applied, CreateSnapshot snapshot]) n1)"

text \<open>
  \<open>RaftNode.handle_normal\<close>, in two steps: apply and reply, then the snapshot timer.
  \<open>time.time()\<close> is read once for the test and once more for \<open>last_snap_time\<close>.
\<close>

definition apply_normal :: "env \<Rightarrow> nat \<Rightarrow> entry \<Rightarrow> raft_node \<Rightarrow> raft_node" where
  "apply_normal ev sq e n =
     (let data = store_apply ev (trace n) (get_data e);
          n1 = emit [StoreApply (get_data e)] n
      in case pop_sender sq n1 of
           (Some sender, m) \<Rightarrow> emit [Put sender (RaftRespResponse data)] m
         | (None, m) \<Rightarrow> m)"

definition snapshot_timer :: "env \<Rightarrow> raft_node \<Rightarrow> raft_node" where
  "snapshot_timer ev n =
     (let now = time_time ev (trace n);
          n1 = emit [TimeTime] n
      in if now > last_snap_time n1 + 15 then
           (let t = time_time ev (trace n1);
                n2 = (emit [TimeTime] n1)\<lparr>last_snap_time := t\<rparr>
            in snapshot_and_compact ev [] n2)
         else n1)"

definition handle_normal :: "env \<Rightarrow> entry \<Rightarrow> raft_node \<Rightarrow> outcome" where
  "handle_normal ev e n =
     (case decode_u64 ev (get_context e) of
        None \<Rightarrow> Raised DecodeError n
      | Some sq \<Rightarrow> Done (snapshot_timer ev (apply_normal ev sq e n)))"

text \<open>
  \<open>RaftNode.handle_config_change\<close>, in three steps as the source has them: the registry
  update, \<open>apply_conf_change\<close> with the snapshot block, and the reply.
\<close>

definition update_registry :: "env \<Rightarrow> conf_change \<Rightarrow> raft_node \<Rightarrow> outcome" where
  "update_registry ev change n =
     (case get_change_type change of
        AddNode \<Rightarrow>
          (case decode_u64 ev (cc_context change) of
             None \<Rightarrow> Raised DecodeError n
           | Some a \<Rightarrow>
               Done (n\<lparr>peers := AList.update (get_node_id change) (Some (RaftClient a)) (peers n)\<rparr>))
      | RemoveNode \<Rightarrow>
          (if get_node_id change = node_id n then Done (n\<lparr>should_quit := True\<rparr>)
           else (case map_of (peers n) (get_node_id change) of
                   None \<Rightarrow> Raised KeyError n
                 | Some _ \<Rightarrow> Done (n\<lparr>peers := AList.delete (get_node_id change) (peers n)\<rparr>)))
      | AddLearnerNode \<Rightarrow> Raised NotImplementedError n)"

definition apply_change :: "env \<Rightarrow> conf_change \<Rightarrow> raft_node \<Rightarrow> raft_node" where
  "apply_change ev change n =
     (let r = apply_conf_change ev (trace n) change;
          n1 = emit [ApplyConfChange change] n
      in case r of
           Some cs \<Rightarrow> snapshot_and_compact ev [SetConfState cs] n1
         | None \<Rightarrow> n1)"

definition reply_config_change :: "nat \<Rightarrow> conf_change \<Rightarrow> raft_node \<Rightarrow> outcome" where
  "reply_config_change sq change n =
     (case pop_sender sq n of
        (None, m) \<Rightarrow> Done m
      | (Some sender, m) \<Rightarrow>
          (case get_change_type change of
             AddNode \<Rightarrow>
               (case peer_addrs m of
                  Inl err \<Rightarrow> Raised err m
                | Inr pa \<Rightarrow> Done (emit [Put sender (RaftRespJoinSuccess (get_node_id change) pa)] m))
           | RemoveNode \<Rightarrow> Done (emit [Put sender RaftRespOk] m)
           | AddLearnerNode \<Rightarrow> Raised NotImplementedError m))"

definition handle_config_change :: "env \<Rightarrow> entry \<Rightarrow> raft_node \<Rightarrow> outcome" where
  "handle_config_change ev e n =
     (case decode_u64 ev (get_context e) of
        None \<Rightarrow> Raised DecodeError n
      | Some sq \<Rightarrow>
          (case conf_change_decode ev (get_data e) of
             None \<Rightarrow> Raised DecodeError n
           | Some change \<Rightarrow>
               (case update_registry ev change n of
                  Raised err m \<Rightarrow> Raised err m
                | Done n1 \<Rightarrow> reply_config_change sq change (apply_change ev change n1))))"

text \<open>\<open>RaftNode.handle_committed_entries\<close>: an entry with no data is skipped.\<close>

definition handle_entry :: "env \<Rightarrow> entry \<Rightarrow> raft_node \<Rightarrow> outcome" where
  "handle_entry ev e n =
     (if get_data e = [] then Done n
      else (case get_entry_type e of
              EntryNormal \<Rightarrow> handle_normal ev e n
            | EntryConfChange \<Rightarrow> handle_config_change ev e n
            | EntryConfChangeV2 \<Rightarrow> Raised NotImplementedError n))"

fun handle_committed_entries :: "env \<Rightarrow> entry list \<Rightarrow> raft_node \<Rightarrow> outcome" where
  "handle_committed_entries ev [] n = Done n"
| "handle_committed_entries ev (e # es) n =
     (case handle_entry ev e n of
        Raised err m \<Rightarrow> Raised err m
      | Done m \<Rightarrow> handle_committed_entries ev es m)"

section \<open>Readiness cycle and main loop\<close>

text \<open>
  \<open>RaftNode.on_ready\<close>. \<open>if commit := light_rd.commit_index()\<close> is false for \<open>None\<close>
  and for \<open>0\<close>. \<open>if any(ready.persisted_messages())\<close> guards a loop over the same list.
\<close>

definition persist_ready :: "ready \<Rightarrow> raft_node \<Rightarrow> raft_node" where
  "persist_ready rd n =
     (let n1 = emit [Append (rd_entries rd)] n;
          n2 = (case rd_hs rd of Some hs \<Rightarrow> emit [SetHardState hs] n1 | None \<Rightarrow> n1)
      in if rd_persisted_messages rd \<noteq> [] then send_messages (rd_persisted_messages rd) n2
         else n2)"

definition advance_ready :: "env \<Rightarrow> raft_node \<Rightarrow> outcome" where
  "advance_ready ev n =
     (let light_rd = raw_advance ev (trace n);
          n1 = emit [Advance] n;
          n2 = (case lrd_commit_index light_rd of
                  Some c \<Rightarrow> (if c \<noteq> 0 then emit [SetHardStateCommit c] n1 else n1)
                | None \<Rightarrow> n1);
          n3 = send_messages (lrd_messages light_rd) n2
      in case handle_committed_entries ev (lrd_committed_entries light_rd) n3 of
           Raised err m \<Rightarrow> Raised err m
         | Done m \<Rightarrow> Done (emit [AdvanceApply] m))"

definition on_ready :: "env \<Rightarrow> raft_node \<Rightarrow> outcome" where
  "on_ready ev n =
     (case raw_ready ev (trace n) of
        None \<Rightarrow> Done n
      | Some rd \<Rightarrow>
          (let n1 = send_messages (rd_messages rd) (emit [TakeReady] n);
               n2 = (if rd_snapshot rd \<noteq> snapshot_default
                     then emit [StoreRestore (snap_data (rd_snapshot rd)),
                                ApplySnapshot (rd_snapshot rd)] n1
                     else n1)
           in case handle_committed_entries ev (rd_committed_entries rd) n2 of
                Raised err m \<Rightarrow> Raised err m
              | Done n3 \<Rightarrow> advance_ready ev (persist_ready rd n3)))"

text \<open>
  The dispatch of one iteration of \<open>RaftNode.run\<close> on the dequeued message (\<open>None\<close>
  after the heartbeat timeout).
\<close>

definition record_sender :: "chan \<Rightarrow> raft_node \<Rightarrow> raft_node" where
  "record_sender c n =
     (let n1 = n\<lparr>seq := seq n + 1\<rparr>
      in n1\<lparr>client_senders := AList.update (seq n1) c (client_senders n1)\<rparr>)"

fun dispatch :: "env \<Rightarrow> request option \<Rightarrow> raft_node \<Rightarrow> outcome" where
  "dispatch ev (Some (MessageConfigChange change c)) n =
     (let change = (if get_node_id change = 0 then change\<lparr>get_node_id := node_id n\<rparr>
                    else change)
      in if \<not> is_leader ev n then send_wrong_leader ev c n
         else (let n1 = record_sender c n
               in Done (emit [ProposeConfChange (encode_u64 ev (seq n1)) change] n1)))"
| "dispatch ev (Some (MessagePropose proposal c)) n =
     (if \<not> is_leader ev n then send_wrong_leader ev c n
      else (let n1 = record_sender c n
            in Done (emit [Propose (encode_u64 ev (seq n1)) proposal] n1)))"
| "dispatch ev (Some (MessageRequestId c)) n =
     (if \<not> is_leader ev n then send_wrong_leader ev c n
      else (case reserve_next_peer_id n of
              (next_id, n1) \<Rightarrow> Done (emit [Put c (RaftRespIdReserved next_id)] n1)))"
| "dispatch ev (Some (MessageRaft msg)) n = Done (emit [Step msg] n)"
| "dispatch ev (Some (MessageReportUnreachable i)) n = Done (emit [ReportUnreachable i] n)"
| "dispatch ev None n = Done n"

definition iteration :: "env \<Rightarrow> raft_node \<Rightarrow> outcome" where
  "iteration ev n =
     (let message = chan_get ev (trace n);
          n1 = emit [ChanGet] n
      in case dispatch ev message n1 of
           Raised err m \<Rightarrow> Raised err m
         | Done n2 \<Rightarrow> on_ready ev (emit [Tick] n2))"

text \<open>
  \<open>RaftNode.run\<close>: \<open>while True\<close>, left only through \<open>should_quit\<close> or an exception; a run
  that never leaves the loop has no outcome (\<open>None\<close>).
\<close>

partial_function (option) run :: "env \<Rightarrow> raft_node \<Rightarrow> outcome option" where
  "run ev n =
     (if should_quit n then Some (Done n)
      else (case iteration ev n of
              Raised err m \<Rightarrow> Some (Raised err m)
            | Done m \<Rightarrow> run ev m))"

section \<open>Mailbox (raftify/mailbox.py)\<close>

text \<open>
  The response taken from the receiver queue, and what the leader's transport client
  returns from \<open>reroute_message\<close>: a \<open>SendMessageResponse\<close> or anything else.
\<close>

datatype response_message =
    ClusterBootstrapReadyRespMessage
  | RaftRespMessage bytes
  | WrongLeaderRespMessage
  | OtherRespMessage

datatype reroute_msg_type = RerouteConfChange | ReroutePropose

datatype reroute_reply = SendMessageResponse bytes | OtherReply

record peer =
  peer_client :: "nat option"

record reroute_call =
  rc_client :: nat
  rc_msg_type :: reroute_msg_type
  rc_conf_change :: "conf_change option"
  rc_msg_bytes :: "bytes option"

record mailbox =
  mb_leader_id :: nat
  mb_peers :: "(nat \<times> peer option) list"

text \<open>
  \<open>Mailbox.__handle_response\<close>. The result is paired with the list of
  \<open>reroute_message\<close> calls made. \<open>assert\<close> raises \<open>AssertionError\<close>.
\<close>

definition handle_response ::
  "(reroute_call \<Rightarrow> reroute_reply) \<Rightarrow> mailbox \<Rightarrow> response_message \<Rightarrow> reroute_msg_type option \<Rightarrow>
   bytes option \<Rightarrow> conf_change option \<Rightarrow> (error + bytes option) \<times> reroute_call list" where
  "handle_response reroute_message mb response reroute_msg_type proposed_data conf_change =
     (case response of
        ClusterBootstrapReadyRespMessage \<Rightarrow> (Inr None, [])
      | RaftRespMessage d \<Rightarrow> (Inr (Some d), [])
      | WrongLeaderRespMessage \<Rightarrow>
          (case reroute_msg_type of
             None \<Rightarrow> (Inl AssertionError, [])
           | Some ty \<Rightarrow>
               (case map_of (mb_peers mb) (mb_leader_id mb) of
                  None \<Rightarrow> (Inl KeyError, [])
                | Some None \<Rightarrow> (Inl AssertionError, [])
                | Some (Some leader) \<Rightarrow>
                    (case peer_client leader of
                       None \<Rightarrow> (Inl AssertionError, [])
                     | Some client \<Rightarrow>
                         (let call = \<lparr>rc_client = client, rc_msg_type = ty,
                                      rc_conf_change = conf_change, rc_msg_bytes = proposed_data\<rparr>
                          in case reroute_message call of
                               SendMessageResponse d \<Rightarrow> (Inr (Some d), [call])
                             | OtherReply \<Rightarrow> (Inl AssertionError, [call])))))
      | OtherRespMessage \<Rightarrow> (Inl UnknownError, []))"

text \<open>
  \<open>Mailbox.send\<close> on the response received within the two seconds (\<open>None\<close>: the wait
  timed out); the \<open>except\<close> clause logs and re-raises.
\<close>

definition mailbox_send ::
  "(reroute_call \<Rightarrow> reroute_reply) \<Rightarrow> mailbox \<Rightarrow> bytes \<Rightarrow> response_message option \<Rightarrow>
   (error + bytes) \<times> reroute_call list" where
  "mailbox_send reroute_message mb message received =
     (case received of
        None \<Rightarrow> (Inl TimeoutError, [])
      | Some response \<Rightarrow>
          (case handle_response reroute_message mb response (Some ReroutePropose) (Some message) None of
             (Inl err, calls) \<Rightarrow> (Inl err, calls)
           | (Inr None, calls) \<Rightarrow> (Inl AssertionError, calls)
           | (Inr (Some resp), calls) \<Rightarrow> (Inr resp, calls)))"

text \<open>
  \<open>Mailbox.leave\<close> on the response received; \<open>pickled\<close> is \<open>pickle.dumps([addr])\<close>.
\<close>

definition mailbox_leave ::
  "(reroute_call \<Rightarrow> reroute_reply) \<Rightarrow> mailbox \<Rightarrow> nat \<Rightarrow> bytes \<Rightarrow> response_message \<Rightarrow>
   (error + unit) \<times> reroute_call list" where
  "mailbox_leave reroute_message mb i pickled res =
     (let conf_change = \<lparr>get_node_id = i, get_change_type = RemoveNode, cc_context = pickled\<rparr>
      in case handle_response reroute_message mb res (Some RerouteConfChange) None (Some conf_change) of
           (Inl err, calls) \<Rightarrow> (Inl err, calls)
         | (Inr _, calls) \<Rightarrow> (Inr (), calls))"

section \<open>Observations on histories\<close>

text \<open>The replies put on reply channels, in order.\<close>

fun puts :: "event list \<Rightarrow> (chan \<times> raft_resp) list" where
  "puts [] = []"
| "puts (Put c r # es) = (c, r) # puts es"
| "puts (e # es) = puts es"

text \<open>The sender tasks that a batch of messages gets from a registry.\<close>

fun sender_tasks :: "(nat \<times> raft_client option) list \<Rightarrow> message list \<Rightarrow> event list" where
  "sender_tasks ps [] = []"
| "sender_tasks ps (msg # msgs) =
     (case map_of ps (get_to msg) of
        Some (Some client) \<Rightarrow> CreateTask (get_to msg) client msg # sender_tasks ps msgs
      | _ \<Rightarrow> sender_tasks ps msgs)"

fun is_apply_snapshot :: "event \<Rightarrow> bool" where
  "is_apply_snapshot (ApplySnapshot s) = True"
| "is_apply_snapshot e = False"

text \<open>
  \<open>before a P es\<close>: scanning \<open>es\<close> from its start, no event with \<open>P\<close> is met before
  the first occurrence of \<open>a\<close> (and none at all when \<open>a\<close> does not occur).
\<close>

fun before :: "event \<Rightarrow> (event \<Rightarrow> bool) \<Rightarrow> event list \<Rightarrow> bool" where
  "before a P [] = True"
| "before a P (x # xs) = (if x = a then True else \<not> P x \<and> before a P xs)"

text \<open>The events a step added to the history.\<close>

definition new_events :: "raft_node \<Rightarrow> raft_node \<Rightarrow> event list" where
  "new_events n m = drop (length (trace n)) (trace m)"

text \<open>The reply channel a request carries.\<close>

fun reply_chan :: "request \<Rightarrow> chan option" where
  "reply_chan (MessageConfigChange change c) = Some c"
| "reply_chan (MessagePropose proposal c) = Some c"
| "reply_chan (MessageRequestId c) = Some c"
| "reply_chan (MessageRaft msg) = None"
| "reply_chan (MessageReportUnreachable i) = None"

section \<open>Concrete nodes and environments\<close>

text \<open>
  Modelled from the spec: \<open>encode_u64\<close> and \<open>decode_u64\<close> of \<open>riteraft.utils\<close>, which
  is not among the sources: "fixed-width 8-byte big-endian codecs". They serve as the
  codec of the concrete environments below; the theorems hold for any codec.
\<close>

definition encode_u64_be :: "nat \<Rightarrow> bytes" where
  "encode_u64_be v =
     [char_of (v div 256 ^ 7), char_of (v div 256 ^ 6), char_of (v div 256 ^ 5),
      char_of (v div 256 ^ 4), char_of (v div 256 ^ 3), char_of (v div 256 ^ 2),
      char_of (v div 256), char_of v]"

definition decode_u64_be :: "bytes \<Rightarrow> nat option" where
  "decode_u64_be b =
     (if length b = 8 then Some (foldl (\<lambda>a c. a * 256 + of_char c) 0 b) else None)"

definition quiet_env :: env where
  "quiet_env =
     \<lparr>decode_u64 = decode_u64_be, encode_u64 = encode_u64_be,
      conf_change_decode = (\<lambda>b. None),
      store_apply = (\<lambda>tr d. ''ok''), store_snapshot = (\<lambda>tr. ''state''),
      time_time = (\<lambda>tr. 0), get_applied = (\<lambda>tr. 7),
      apply_conf_change = (\<lambda>tr c. None), get_leader_id = (\<lambda>tr. 1),
      raw_ready = (\<lambda>tr. None),
      raw_advance = (\<lambda>tr. \<lparr>lrd_commit_index = None, lrd_messages = [],
                             lrd_committed_entries = []\<rparr>),
      chan_get = (\<lambda>tr. None)\<rparr>"

definition fresh_node :: "nat \<Rightarrow> (nat \<times> raft_client option) list \<Rightarrow> raft_node" where
  "fresh_node i ps =
     \<lparr>node_id = i, peers = ps, should_quit = False, seq = 0, last_snap_time = 0,
      client_senders = [], trace = []\<rparr>"

definition ctx1 :: bytes where
  "ctx1 = [CHR 0x00, CHR 0x00, CHR 0x00, CHR 0x00, CHR 0x00, CHR 0x00, CHR 0x00, CHR 0x01]"

definition join_env :: env where
  "join_env = quiet_env\<lparr>conf_change_decode :=
     (\<lambda>b. Some \<lparr>get_node_id = 2, get_change_type = AddNode, cc_context = ctx1\<rparr>)\<rparr>"

definition waiting_node :: "nat \<Rightarrow> (nat \<times> raft_client option) list \<Rightarrow> raft_node" where
  "waiting_node i ps = (fresh_node i ps)\<lparr>client_senders := [(1, 5)]\<rparr>"

definition conf_entry :: entry where
  "conf_entry = \<lparr>get_entry_type = EntryConfChange, get_data = ''change'', get_context = ctx1\<rparr>"

definition late_env :: env where
  "late_env = quiet_env\<lparr>time_time := (\<lambda>tr. 100)\<rparr>"

definition normal_entry :: "bytes \<Rightarrow> entry" where
  "normal_entry d = \<lparr>get_entry_type = EntryNormal, get_data = d, get_context = ctx1\<rparr>"

text \<open>The events of the apply-and-reply step of \<open>handle_normal\<close>.\<close>

definition apply_events :: "env \<Rightarrow> nat \<Rightarrow> entry \<Rightarrow> raft_node \<Rightarrow> event list" where
  "apply_events ev sq e n =
     StoreApply (get_data e) #
       (case map_of (client_senders n) sq of
          Some c \<Rightarrow> [Put c (RaftRespResponse (store_apply ev (trace n) (get_data e)))]
        | None \<Rightarrow> [])"

definition voters_env :: env where
  "voters_env = join_env\<lparr>apply_conf_change := (\<lambda>tr c. Some [1, 2])\<rparr>"

text \<open>
  A mailbox on a follower whose leader \<open>1\<close> has a transport client, and a leader that
  answers a rerouted request with something other than a \<open>SendMessageResponse\<close>.
\<close>

definition churning_leader :: "reroute_call \<Rightarrow> reroute_reply" where
  "churning_leader call = OtherReply"

definition follower_mailbox :: mailbox where
  "follower_mailbox =
     \<lparr>mb_leader_id = 1, mb_peers = [(1, Some \<lparr>peer_client = Some 11\<rparr>)]\<rparr>"

text \<open>The events that the handlers of committed entries produce.\<close>

fun handler_event :: "event \<Rightarrow> bool" where
  "handler_event (StoreApply d) = True"
| "handler_event StoreSnapshot = True"
| "handler_event (Compact i) = True"
| "handler_event (CreateSnapshot d) = True"
| "handler_event (SetConfState cs) = True"
| "handler_event (Put c r) = True"
| "handler_event (ApplyConfChange change) = True"
| "handler_event TimeTime = True"
| "handler_event e = False"

text \<open>
  A ready batch with a snapshot, one committed entry, one new entry, a hard state, a
  message and a persisted message, and an environment whose \<open>RawNode\<close> has it ready.
\<close>

definition ready_batch :: ready where
  "ready_batch =
     \<lparr>rd_messages = [Message 1 2 ''heartbeat''],
      rd_snapshot = \<lparr>snap_data = ''snap'', snap_index = 5, snap_term = 2, snap_voters = [1, 2]\<rparr>,
      rd_committed_entries = [normal_entry ''x''],
      rd_entries = [normal_entry ''y''],
      rd_hs = Some \<lparr>hs_term = 2, hs_vote = 1, hs_commit = 5\<rparr>,
      rd_persisted_messages = [Message 1 2 ''append'']\<rparr>"

definition ready_env :: env where
  "ready_env = quiet_env\<lparr>raw_ready := (\<lambda>tr. Some ready_batch)\<rparr>"

text \<open>The call of \<open>apply_conf_change\<close> with a \<open>RemoveNode\<close> of the node \<open>i\<close>.\<close>

fun applies_self_removal :: "nat \<Rightarrow> event \<Rightarrow> bool" where
  "applies_self_removal i (ApplyConfChange change) =
     (get_change_type change = RemoveNode \<and> get_node_id change = i)"
| "applies_self_removal i e = False"

text \<open>
  \<open>quit_step n m\<close>: \<open>m\<close> is a later state of the node \<open>n\<close> (same id, history
  extended) in which \<open>should_quit\<close> is still set if it was, and is set if in between
  \<open>apply_conf_change\<close> was called with a \<open>RemoveNode\<close> of the node's own id.
\<close>

definition quit_step :: "raft_node \<Rightarrow> raft_node \<Rightarrow> bool" where
  "quit_step n m =
     (node_id m = node_id n \<and> (should_quit n \<longrightarrow> should_quit m)
      \<and> trace m = trace n @ new_events n m
      \<and> (list_ex (applies_self_removal (node_id n)) (new_events n m) \<longrightarrow> should_quit m))"

text \<open>
  The leader \<open>1\<close> commits its own removal: the batch, the environment, and the node
  at the end of the iteration that handles it.
\<close>

definition leave_change :: conf_change where
  "leave_change = \<lparr>get_node_id = 1, get_change_type = RemoveNode, cc_context = ''addr''\<rparr>"

definition leave_batch :: ready where
  "leave_batch =
     \<lparr>rd_messages = [], rd_snapshot = snapshot_default,
      rd_committed_entries = [conf_entry], rd_entries = [], rd_hs = None,
      rd_persisted_messages = []\<rparr>"

definition leave_env :: env where
  "leave_env = quiet_env\<lparr>conf_change_decode := (\<lambda>b. Some leave_change),
     raw_ready := (\<lambda>tr. Some leave_batch)\<rparr>"

definition left_node :: raft_node where
  "left_node =
     \<lparr>node_id = 1, peers = [(2, Some (RaftClient 9002))], should_quit = True, seq = 0,
      last_snap_time = 0, client_senders = [],
      trace = [ChanGet, Tick, TakeReady, ApplyConfChange leave_change, Put 5 RaftRespOk,
               Append [], Advance, AdvanceApply]\<rparr>"

text \<open>An environment in which no leader is known: the leader id is \<open>0\<close>.\<close>

definition leaderless_env :: env where
  "leaderless_env = quiet_env\<lparr>get_leader_id := (\<lambda>tr. 0)\<rparr>"

text \<open>
  The events with which a readiness cycle on the batch \<open>rd\<close> begins, up to the
  handling of the committed entries, and the events of \<open>if hs := ready.hs()\<close>.
\<close>

fun is_sender_task :: "event \<Rightarrow> bool" where
  "is_sender_task (CreateTask i c msg) = True"
| "is_sender_task e = False"

definition hard_state_events :: "ready \<Rightarrow> event list" where
  "hard_state_events rd = (case rd_hs rd of Some hs \<Rightarrow> [SetHardState hs] | None \<Rightarrow> [])"

definition ready_prefix :: "raft_node \<Rightarrow> ready \<Rightarrow> event list" where
  "ready_prefix n rd =
     TakeReady # sender_tasks (peers n) (rd_messages rd) @
       (if rd_snapshot rd \<noteq> snapshot_default
        then [StoreRestore (snap_data (rd_snapshot rd)), ApplySnapshot (rd_snapshot rd)]
        else [])"

text \<open>The batch \<open>ready_batch\<close> with its message also among the persisted messages.\<close>

definition echo_batch :: ready where
  "echo_batch = ready_batch\<lparr>rd_persisted_messages := [Message 1 2 ''heartbeat'']\<rparr>"

definition echo_env :: env where
  "echo_env = quiet_env\<lparr>raw_ready := (\<lambda>tr. Some echo_batch)\<rparr>"

section \<open>Basic facts\<close>

lemma emit_simps:
  "node_id (emit es n) = node_id n" "peers (emit es n) = peers n"
  "should_quit (emit es n) = should_quit n" "seq (emit es n) = seq n"
  "last_snap_time (emit es n) = last_snap_time n"
  "client_senders (emit es n) = client_senders n"
  "trace (emit es n) = trace n @ es"
  by (simp_all add: emit_def)

lemma emit_emit: "emit es2 (emit es1 n) = emit (es1 @ es2) n"
  by (simp add: emit_def)

lemma emit_nil: "emit [] n = n"
  by (simp add: emit_def)

lemma puts_append: "puts (xs @ ys) = puts xs @ puts ys"
  by (induction xs rule: puts.induct) simp_all

lemma send_messages_tasks: "send_messages msgs n = emit (sender_tasks (peers n) msgs) n"
  by (induction msgs arbitrary: n)
     (auto simp: emit_simps emit_emit emit_nil split: option.splits)

lemma task_in_sender_tasks:
  "CreateTask i c msg \<in> set (sender_tasks ps msgs) \<Longrightarrow>
     msg \<in> set msgs \<and> i = get_to msg \<and> map_of ps (get_to msg) = Some (Some c)"
  by (induction msgs) (auto split: option.splits)

section \<open>Peer-id reservation\<close>

text \<open>
  C6. The source computes \<open>max(max(keys) + 1, own id)\<close>, with \<open>1\<close> for \<open>max(keys)\<close> when the
  registry is empty. On the one-node cluster (empty registry, own id \<open>1\<close>) the reserved id
  is \<open>2\<close>. On a leader whose id exceeds every peer id the result is the leader's own id:
  with the registry \<open>{1, 2}\<close> and own id \<open>3\<close> it is \<open>3\<close>, not
  \<open>max({1, 2} \<union> {3}) + 1 = 4\<close>, and the leader enters its own registry as a reserved
  peer; with the empty registry of a node created as follower \<open>2\<close> it is \<open>2\<close>, not \<open>3\<close>.
\<close>

theorem reserve_next_peer_id_own_id:
  "fst (reserve_next_peer_id (fresh_node 1 [])) = 2
   \<and> fst (reserve_next_peer_id
          (fresh_node 3 [(1, Some (RaftClient 9001)), (2, Some (RaftClient 9002))])) = 3
   \<and> peers (snd (reserve_next_peer_id
          (fresh_node 3 [(1, Some (RaftClient 9001)), (2, Some (RaftClient 9002))])))
       = [(1, Some (RaftClient 9001)), (2, Some (RaftClient 9002)), (3, None)]
   \<and> fst (reserve_next_peer_id (fresh_node 2 [])) = 2"
  by (simp add: reserve_next_peer_id_def fresh_node_def)

section \<open>Dispatch of outbound messages\<close>

lemma sender_tasks_only:
  "e \<in> set (sender_tasks ps msgs) \<Longrightarrow>
     \<exists>msg \<in> set msgs. \<exists>c. map_of ps (get_to msg) = Some (Some c) \<and> e = CreateTask (get_to msg) c msg"
  by (induction msgs) (auto split: option.splits)

text \<open>
  C10. \<open>send_messages\<close> always returns, and the node it returns differs from the one it
  was given only in the history, which gains the sender tasks of the batch. A message
  whose destination is absent from the registry or reserved gets no task, and every task
  created is for a message of the batch whose destination is a populated peer.
\<close>

theorem send_messages_skips_unpopulated:
  "send_messages msgs n = n\<lparr>trace := trace n @ sender_tasks (peers n) msgs\<rparr>
   \<and> (\<forall>msg \<in> set msgs.
        (map_of (peers n) (get_to msg) = None \<or> map_of (peers n) (get_to msg) = Some None)
        \<longrightarrow> (\<forall>i c. CreateTask i c msg \<notin> set (new_events n (send_messages msgs n))))
   \<and> (\<forall>e \<in> set (new_events n (send_messages msgs n)).
        \<exists>msg \<in> set msgs. \<exists>c. map_of (peers n) (get_to msg) = Some (Some c)
          \<and> e = CreateTask (get_to msg) c msg)"
proof (intro conjI ballI impI allI)
  show "send_messages msgs n = n\<lparr>trace := trace n @ sender_tasks (peers n) msgs\<rparr>"
    by (simp add: send_messages_tasks emit_def)
  have new: "new_events n (send_messages msgs n) = sender_tasks (peers n) msgs"
    by (simp add: send_messages_tasks emit_def new_events_def)
  show "CreateTask i c msg \<notin> set (new_events n (send_messages msgs n))"
    if "map_of (peers n) (get_to msg) = None \<or> map_of (peers n) (get_to msg) = Some None"
    for msg i c
    using that task_in_sender_tasks [of i c msg "peers n" msgs] unfolding new by auto
  show "\<exists>msg \<in> set msgs. \<exists>c. map_of (peers n) (get_to msg) = Some (Some c)
          \<and> e = CreateTask (get_to msg) c msg"
    if "e \<in> set (new_events n (send_messages msgs n))" for e
    using that sender_tasks_only unfolding new by blast
qed

text \<open>
  A batch for a populated peer \<open>2\<close>, a reserved id \<open>3\<close> and an unknown id \<open>4\<close>: the
  message for \<open>3\<close> gets no task.
\<close>

theorem send_messages_skips_unpopulated_witness:
  "map_of (peers (fresh_node 1 [(2, Some (RaftClient 9002)), (3, None)]))
       (get_to (Message 1 3 ''b'')) = Some None
   \<and> (\<forall>i c. CreateTask i c (Message 1 3 ''b'') \<notin>
        set (new_events (fresh_node 1 [(2, Some (RaftClient 9002)), (3, None)])
               (send_messages [Message 1 2 ''a'', Message 1 3 ''b'', Message 1 4 ''c'']
                  (fresh_node 1 [(2, Some (RaftClient 9002)), (3, None)]))))"
proof -
  let ?n = "fresh_node 1 [(2, Some (RaftClient 9002)), (3, None)]"
  let ?ms = "[Message 1 2 ''a'', Message 1 3 ''b'', Message 1 4 ''c'']"
  have h1: "Message 1 3 ''b'' \<in> set ?ms" by simp
  have h2: "map_of (peers ?n) (get_to (Message 1 3 ''b'')) = Some None"
    by (simp add: fresh_node_def)
  note t = send_messages_skips_unpopulated [of ?ms ?n, THEN conjunct2, THEN conjunct1,
      THEN bspec, OF h1, THEN mp, OF disjI2, OF h2]
  show ?thesis using h2 t by blast
qed

section \<open>Handlers: fields and histories\<close>

lemma peer_addrs_of_reserved:
  "(k, None) \<in> set ps \<Longrightarrow> peer_addrs_of ps = Inl AttributeError"
  by (induction ps rule: peer_addrs_of.induct) auto

lemma peer_addrs_of_populated:
  "\<forall>k. (k, None) \<notin> set ps \<Longrightarrow>
     peer_addrs_of ps = Inr (map (\<lambda>(k, v). (k, client_addr (the v))) ps)"
  by (induction ps rule: peer_addrs_of.induct) auto

lemma update_keeps_entry:
  "(k, v) \<in> set ps \<Longrightarrow> k \<noteq> i \<Longrightarrow> (k, v) \<in> set (AList.update i w ps)"
  by (induction ps) auto

lemma snapshot_and_compact_fields:
  "node_id (snapshot_and_compact ev pre n) = node_id n"
  "peers (snapshot_and_compact ev pre n) = peers n"
  "should_quit (snapshot_and_compact ev pre n) = should_quit n"
  "seq (snapshot_and_compact ev pre n) = seq n"
  "last_snap_time (snapshot_and_compact ev pre n) = last_snap_time n"
  "client_senders (snapshot_and_compact ev pre n) = client_senders n"
  "trace (snapshot_and_compact ev pre n) =
     trace n @ StoreSnapshot # pre @
       [Compact (get_applied ev (trace n)), CreateSnapshot (store_snapshot ev (trace n))]"
  by (simp_all add: snapshot_and_compact_def Let_def emit_simps)

lemma apply_change_fields:
  "node_id (apply_change ev change n) = node_id n"
  "peers (apply_change ev change n) = peers n"
  "should_quit (apply_change ev change n) = should_quit n"
  "seq (apply_change ev change n) = seq n"
  "last_snap_time (apply_change ev change n) = last_snap_time n"
  "client_senders (apply_change ev change n) = client_senders n"
  by (simp_all add: apply_change_def Let_def emit_simps snapshot_and_compact_fields
        split: option.splits)

lemma apply_change_trace:
  "trace (apply_change ev change n) =
     trace n @ ApplyConfChange change #
       (case apply_conf_change ev (trace n) change of
          None \<Rightarrow> []
        | Some cs \<Rightarrow> [StoreSnapshot, SetConfState cs,
            Compact (get_applied ev (trace n @ [ApplyConfChange change])),
            CreateSnapshot (store_snapshot ev (trace n @ [ApplyConfChange change]))])"
  by (simp add: apply_change_def Let_def emit_simps snapshot_and_compact_fields
        split: option.splits)

lemma apply_change_puts: "puts (trace (apply_change ev change n)) = puts (trace n)"
  by (simp add: apply_change_trace puts_append split: option.splits)

lemma send_wrong_leader_populated:
  "map_of (peers n) (get_leader_id ev (trace n)) = Some (Some cl) \<Longrightarrow>
     send_wrong_leader ev ch n =
       Done (emit [Put ch (RaftRespWrongLeader (get_leader_id ev (trace n)) (client_addr cl))] n)"
  by (simp add: send_wrong_leader_def)

lemma send_wrong_leader_absent:
  "map_of (peers n) (get_leader_id ev (trace n)) = None \<Longrightarrow>
     send_wrong_leader ev ch n = Raised KeyError n"
  by (simp add: send_wrong_leader_def)

lemma send_wrong_leader_reserved:
  "map_of (peers n) (get_leader_id ev (trace n)) = Some None \<Longrightarrow>
     send_wrong_leader ev ch n = Raised AttributeError n"
  by (simp add: send_wrong_leader_def)

lemma dispatch_not_leader:
  "\<not> is_leader ev n \<Longrightarrow> reply_chan req = Some c \<Longrightarrow>
     dispatch ev (Some req) n = send_wrong_leader ev c n"
  by (cases req) (simp_all add: Let_def)

lemma pop_sender_simps:
  "fst (pop_sender sq n) = map_of (client_senders n) sq"
  "snd (pop_sender sq n) = n\<lparr>client_senders := AList.delete sq (client_senders n)\<rparr>"
  by (simp_all add: pop_sender_def)

lemma reply_add_node_reserved:
  assumes "get_change_type change = AddNode" "map_of (client_senders n) sq = Some c"
    and "(k, None) \<in> set (peers n)"
  shows "reply_config_change sq change n =
           Raised AttributeError (n\<lparr>client_senders := AList.delete sq (client_senders n)\<rparr>)"
  using assms
  by (simp add: reply_config_change_def pop_sender_def peer_addrs_def peer_addrs_of_reserved)

lemma decode_ctx1: "decode_u64_be ctx1 = Some 1"
  by (simp add: decode_u64_be_def ctx1_def)

section \<open>Replies of a node that is not the leader\<close>

text \<open>
  C4, as the source has it. A \<open>Propose\<close>, \<open>ConfigChange\<close> or \<open>RequestId\<close> request
  that reaches a node which is not the leader is answered through \<open>send_wrong_leader\<close>:
  when the leader's id is a populated entry of the peer registry, \<open>WrongLeader\<close> with that
  id and the entry's address is put on the request's channel. There is no \<open>NoLeader\<close>
  reply: when the leader's id is not a key of the registry, as when no leader is known
  (id \<open>0\<close>), the lookup raises \<open>KeyError\<close> and nothing is put on the channel.
\<close>

theorem non_leader_reply:
  assumes "\<not> is_leader ev n" and "reply_chan req = Some c"
  shows "(\<forall>cl. map_of (peers n) (get_leader_id ev (trace n)) = Some (Some cl) \<longrightarrow>
            dispatch ev (Some req) n =
              Done (emit [Put c (RaftRespWrongLeader (get_leader_id ev (trace n)) (client_addr cl))] n))
       \<and> (map_of (peers n) (get_leader_id ev (trace n)) = None \<longrightarrow>
            dispatch ev (Some req) n = Raised KeyError n)"
  using assms
  by (simp add: dispatch_not_leader send_wrong_leader_populated send_wrong_leader_absent)

text \<open>A follower \<open>2\<close> that knows the leader \<open>1\<close> at address \<open>9001\<close>.\<close>

theorem non_leader_reply_witness:
  "dispatch quiet_env (Some (MessagePropose ''x'' 5)) (fresh_node 2 [(1, Some (RaftClient 9001))])
     = Done (emit [Put 5 (RaftRespWrongLeader 1 9001)] (fresh_node 2 [(1, Some (RaftClient 9001))]))"
proof -
  let ?n = "fresh_node 2 [(1, Some (RaftClient 9001))]"
  have h1: "\<not> is_leader quiet_env ?n"
    by (simp add: is_leader_def quiet_env_def fresh_node_def)
  have h2: "reply_chan (MessagePropose ''x'' 5) = Some 5" by simp
  have h3: "map_of (peers ?n) (get_leader_id quiet_env (trace ?n)) = Some (Some (RaftClient 9001))"
    by (simp add: quiet_env_def fresh_node_def)
  have g: "get_leader_id quiet_env (trace ?n) = 1" by (simp add: quiet_env_def)
  note t = non_leader_reply [OF h1 h2, THEN conjunct1, THEN spec, THEN mp, OF h3]
  show ?thesis using t [unfolded g] by (simp only: raft_client.sel)
qed

text \<open>
  C4 as stated fails: on a follower that knows no leader (leader id \<open>0\<close>) a proposal is
  not answered with \<open>NoLeader\<close>; the handler raises \<open>KeyError\<close> and no reply is put.
\<close>

theorem no_leader_known_raises:
  "get_leader_id leaderless_env [] = 0
   \<and> dispatch leaderless_env (Some (MessagePropose ''x'' 5))
       (fresh_node 2 [(1, Some (RaftClient 9001))])
     = Raised KeyError (fresh_node 2 [(1, Some (RaftClient 9001))])
   \<and> puts (trace (final (dispatch leaderless_env
        (Some (MessagePropose ''x'' 5)) (fresh_node 2 [(1, Some (RaftClient 9001))])))) = []"
  by (simp add: leaderless_env_def quiet_env_def fresh_node_def is_leader_def
        send_wrong_leader_def)


section \<open>Reserved entries in the registry\<close>

text \<open>
  C9, as the source has it. \<open>peer_addrs\<close> raises \<open>AttributeError\<close> as soon as one entry
  of the registry is reserved, and renders the registry when none is. Hence a committed
  \<open>AddNode\<close> whose reply channel is waiting, handled while another id \<open>k\<close> is reserved,
  raises \<open>AttributeError\<close> and puts no reply. The \<open>WrongLeader\<close> reply does not go
  through \<open>peer_addrs\<close>: it reads the leader's entry only, is sent whenever that entry is
  populated, and raises \<open>AttributeError\<close> when that entry itself is reserved.
\<close>

theorem reserved_entry_breaks_join_reply:
  "((k, None) \<in> set (peers n) \<longrightarrow> peer_addrs n = Inl AttributeError)
   \<and> ((\<forall>j. (j, None) \<notin> set (peers n)) \<longrightarrow>
        peer_addrs n = Inr (map (\<lambda>(j, v). (j, client_addr (the v))) (peers n)))
   \<and> (decode_u64 ev (get_context e) = Some sq \<and> conf_change_decode ev (get_data e) = Some change
        \<and> get_change_type change = AddNode \<and> decode_u64 ev (cc_context change) = Some a
        \<and> map_of (client_senders n) sq = Some c
        \<and> (k, None) \<in> set (peers n) \<and> k \<noteq> get_node_id change \<longrightarrow>
        (\<exists>m. handle_config_change ev e n = Raised AttributeError m
             \<and> puts (trace m) = puts (trace n)))
   \<and> (map_of (peers n) (get_leader_id ev (trace n)) = Some (Some cl) \<longrightarrow>
        send_wrong_leader ev ch n =
          Done (emit [Put ch (RaftRespWrongLeader (get_leader_id ev (trace n)) (client_addr cl))] n))
   \<and> (map_of (peers n) (get_leader_id ev (trace n)) = Some None \<longrightarrow>
        send_wrong_leader ev ch n = Raised AttributeError n)"
proof (intro conjI impI)
  show "peer_addrs n = Inl AttributeError" if "(k, None) \<in> set (peers n)"
    using that by (simp add: peer_addrs_def peer_addrs_of_reserved)
  show "peer_addrs n = Inr (map (\<lambda>(j, v). (j, client_addr (the v))) (peers n))"
    if "\<forall>j. (j, None) \<notin> set (peers n)"
    using that by (simp add: peer_addrs_def peer_addrs_of_populated)
  show "\<exists>m. handle_config_change ev e n = Raised AttributeError m
             \<and> puts (trace m) = puts (trace n)"
    if h: "decode_u64 ev (get_context e) = Some sq \<and> conf_change_decode ev (get_data e) = Some change
        \<and> get_change_type change = AddNode \<and> decode_u64 ev (cc_context change) = Some a
        \<and> map_of (client_senders n) sq = Some c
        \<and> (k, None) \<in> set (peers n) \<and> k \<noteq> get_node_id change"
  proof -
    let ?n1 = "n\<lparr>peers := AList.update (get_node_id change) (Some (RaftClient a)) (peers n)\<rparr>"
    let ?n2 = "apply_change ev change ?n1"
    have u: "update_registry ev change n = Done ?n1"
      using h by (simp add: update_registry_def)
    have r: "(k, None) \<in> set (peers ?n2)"
      using h by (simp add: apply_change_fields update_keeps_entry)
    have s: "map_of (client_senders ?n2) sq = Some c"
      using h by (simp add: apply_change_fields)
    have "handle_config_change ev e n =
            Raised AttributeError (?n2\<lparr>client_senders := AList.delete sq (client_senders ?n2)\<rparr>)"
      using h u reply_add_node_reserved [OF _ s r, of change]
      by (simp add: handle_config_change_def)
    moreover have "puts (trace (?n2\<lparr>client_senders := AList.delete sq (client_senders ?n2)\<rparr>))
                     = puts (trace n)"
      by (simp add: apply_change_puts)
    ultimately show ?thesis by blast
  qed
  show "send_wrong_leader ev ch n =
          Done (emit [Put ch (RaftRespWrongLeader (get_leader_id ev (trace n)) (client_addr cl))] n)"
    if "map_of (peers n) (get_leader_id ev (trace n)) = Some (Some cl)"
    using that by (rule send_wrong_leader_populated)
  show "send_wrong_leader ev ch n = Raised AttributeError n"
    if "map_of (peers n) (get_leader_id ev (trace n)) = Some None"
    using that by (rule send_wrong_leader_reserved)
qed


text \<open>
  Leader \<open>1\<close> with ids \<open>2\<close> and \<open>3\<close> reserved commits the \<open>AddNode\<close> of \<open>2\<close> for a
  waiting client; a follower with a populated, and one with a reserved, leader entry.
\<close>

theorem reserved_entry_breaks_join_reply_witness:
  "peer_addrs (waiting_node 1 [(2, None), (3, None)]) = Inl AttributeError
   \<and> peer_addrs (fresh_node 2 [(1, Some (RaftClient 9001))]) = Inr [(1, 9001)]
   \<and> (\<exists>m. handle_config_change join_env conf_entry (waiting_node 1 [(2, None), (3, None)])
            = Raised AttributeError m
          \<and> puts (trace m) = puts (trace (waiting_node 1 [(2, None), (3, None)])))
   \<and> send_wrong_leader quiet_env 5 (fresh_node 2 [(1, Some (RaftClient 9001))])
        = Done (emit [Put 5 (RaftRespWrongLeader 1 9001)] (fresh_node 2 [(1, Some (RaftClient 9001))]))
   \<and> send_wrong_leader quiet_env 5 (fresh_node 2 [(1, None)])
        = Raised AttributeError (fresh_node 2 [(1, None)])"
proof -
  let ?n = "waiting_node 1 [(2, None), (3, None)]"
  let ?p = "fresh_node 2 [(1, Some (RaftClient 9001))]"
  let ?r = "fresh_node 2 [(1, None)]"
  let ?change = "\<lparr>get_node_id = 2, get_change_type = AddNode, cc_context = ctx1\<rparr>"
  have k: "(3, None) \<in> set (peers ?n)"
    by (simp add: waiting_node_def fresh_node_def)
  have c1: "peer_addrs ?n = Inl AttributeError"
    using reserved_entry_breaks_join_reply [of 3 ?n, THEN conjunct1] k by blast
  have pop: "\<forall>j. (j, None) \<notin> set (peers ?p)"
    by (simp add: fresh_node_def)
  have c2: "peer_addrs ?p = Inr [(1, 9001)]"
    using reserved_entry_breaks_join_reply [of _ ?p, THEN conjunct2, THEN conjunct1] pop
    by (simp add: fresh_node_def)
  have h3: "decode_u64 join_env (get_context conf_entry) = Some 1
        \<and> conf_change_decode join_env (get_data conf_entry) = Some ?change
        \<and> get_change_type ?change = AddNode \<and> decode_u64 join_env (cc_context ?change) = Some 1
        \<and> map_of (client_senders ?n) 1 = Some 5
        \<and> (3, None) \<in> set (peers ?n) \<and> 3 \<noteq> get_node_id ?change"
    by (simp add: join_env_def quiet_env_def conf_entry_def decode_ctx1 waiting_node_def
          fresh_node_def)
  note c3 = reserved_entry_breaks_join_reply [of 3 ?n join_env conf_entry 1 ?change 1 5,
      THEN conjunct2, THEN conjunct2, THEN conjunct1, THEN mp, OF h3]
  have l: "map_of (peers ?p) (get_leader_id quiet_env (trace ?p)) = Some (Some (RaftClient 9001))"
    by (simp add: quiet_env_def fresh_node_def)
  have g: "get_leader_id quiet_env (trace ?p) = 1" by (simp add: quiet_env_def)
  note c4 = reserved_entry_breaks_join_reply [of _ ?p quiet_env _ _ _ _ _ "RaftClient 9001" 5,
      THEN conjunct2, THEN conjunct2, THEN conjunct2, THEN conjunct1, THEN mp, OF l,
      unfolded g raft_client.sel]
  have l': "map_of (peers ?r) (get_leader_id quiet_env (trace ?r)) = Some None"
    by (simp add: quiet_env_def fresh_node_def)
  note c5 = reserved_entry_breaks_join_reply [of _ ?r quiet_env _ _ _ _ _ _ 5,
      THEN conjunct2, THEN conjunct2, THEN conjunct2, THEN conjunct2, THEN mp, OF l']
  show ?thesis using c1 c2 c3 c4 c5 by blast
qed

text \<open>
  C9 as stated fails for the \<open>WrongLeader\<close> reply: with id \<open>3\<close> reserved and the
  leader \<open>1\<close> populated, the reply is sent.
\<close>

theorem wrong_leader_with_reserved_entry:
  "map_of (peers (fresh_node 2 [(1, Some (RaftClient 9001)), (3, None)])) 3 = Some None
   \<and> send_wrong_leader quiet_env 5 (fresh_node 2 [(1, Some (RaftClient 9001)), (3, None)])
       = Done (emit [Put 5 (RaftRespWrongLeader 1 9001)]
                 (fresh_node 2 [(1, Some (RaftClient 9001)), (3, None)]))"
  by (simp add: quiet_env_def fresh_node_def send_wrong_leader_def)

lemma new_events_append: "trace m = trace n @ xs \<Longrightarrow> new_events n m = xs"
  by (simp add: new_events_def)

lemma apply_normal_fields:
  "node_id (apply_normal ev sq e n) = node_id n"
  "peers (apply_normal ev sq e n) = peers n"
  "should_quit (apply_normal ev sq e n) = should_quit n"
  "seq (apply_normal ev sq e n) = seq n"
  "last_snap_time (apply_normal ev sq e n) = last_snap_time n"
  "client_senders (apply_normal ev sq e n) = AList.delete sq (client_senders n)"
  "trace (apply_normal ev sq e n) = trace n @ apply_events ev sq e n"
  by (simp_all add: apply_normal_def apply_events_def pop_sender_def Let_def emit_simps
        split: option.splits)

lemma snapshot_timer_fields:
  "node_id (snapshot_timer ev n) = node_id n"
  "peers (snapshot_timer ev n) = peers n"
  "should_quit (snapshot_timer ev n) = should_quit n"
  "seq (snapshot_timer ev n) = seq n"
  "client_senders (snapshot_timer ev n) = client_senders n"
  by (simp_all add: snapshot_timer_def Let_def emit_simps snapshot_and_compact_fields)

lemma snapshot_timer_trace:
  "trace (snapshot_timer ev n) =
     (if time_time ev (trace n) > last_snap_time n + 15
      then trace n @ [TimeTime, TimeTime, StoreSnapshot,
             Compact (get_applied ev (trace n @ [TimeTime, TimeTime])),
             CreateSnapshot (store_snapshot ev (trace n @ [TimeTime, TimeTime]))]
      else trace n @ [TimeTime])"
  by (simp add: snapshot_timer_def Let_def emit_simps snapshot_and_compact_fields)

lemma reply_config_change_trace:
  "\<exists>post. trace (final (reply_config_change sq change n)) = trace n @ post
      \<and> (post = [] \<or> (\<exists>c r. post = [Put c r]))"
  by (auto simp: reply_config_change_def pop_sender_def emit_simps
        split: option.splits conf_change_type.splits sum.splits)

section \<open>Snapshot and compaction\<close>

text \<open>
  C1, as the source has it. When the snapshot timer fires on a committed normal entry
  (the clock read after apply and reply exceeds \<open>last_snap_time + 15\<close>), the handler
  reads the clock again, captures \<open>last_applied\<close>, awaits \<open>store.snapshot()\<close>, and then
  calls \<open>compact(last_applied)\<close> first and \<open>create_snapshot(snapshot)\<close> after it. The
  conf-change path, when \<open>apply_conf_change\<close> returns a conf state, issues
  \<open>set_conf_state\<close>, \<open>compact(last_applied)\<close> and \<open>create_snapshot(snapshot)\<close> in this
  order, before the reply (if any).
\<close>

theorem compact_then_create_snapshot:
  "(decode_u64 ev (get_context e) = Some sq
      \<and> time_time ev (trace n @ apply_events ev sq e n) > last_snap_time n + 15 \<longrightarrow>
      new_events n (final (handle_normal ev e n)) =
        apply_events ev sq e n @ [TimeTime, TimeTime, StoreSnapshot,
          Compact (get_applied ev (trace n @ apply_events ev sq e n @ [TimeTime, TimeTime])),
          CreateSnapshot (store_snapshot ev (trace n @ apply_events ev sq e n @ [TimeTime, TimeTime]))])
   \<and> (decode_u64 ev (get_context e) = Some sq \<and> conf_change_decode ev (get_data e) = Some change
      \<and> update_registry ev change n = Done n1
      \<and> apply_conf_change ev (trace n) change = Some cs \<longrightarrow>
      (\<exists>post. new_events n (final (handle_config_change ev e n)) =
          [ApplyConfChange change, StoreSnapshot, SetConfState cs,
           Compact (get_applied ev (trace n @ [ApplyConfChange change])),
           CreateSnapshot (store_snapshot ev (trace n @ [ApplyConfChange change]))] @ post
        \<and> (post = [] \<or> (\<exists>c r. post = [Put c r]))))"
proof (intro conjI impI)
  assume h: "decode_u64 ev (get_context e) = Some sq
      \<and> time_time ev (trace n @ apply_events ev sq e n) > last_snap_time n + 15"
  show "new_events n (final (handle_normal ev e n)) =
        apply_events ev sq e n @ [TimeTime, TimeTime, StoreSnapshot,
          Compact (get_applied ev (trace n @ apply_events ev sq e n @ [TimeTime, TimeTime])),
          CreateSnapshot (store_snapshot ev (trace n @ apply_events ev sq e n @ [TimeTime, TimeTime]))]"
    using h
    by (intro new_events_append)
       (simp add: handle_normal_def snapshot_timer_trace apply_normal_fields)
next
  assume h: "decode_u64 ev (get_context e) = Some sq \<and> conf_change_decode ev (get_data e) = Some change
      \<and> update_registry ev change n = Done n1
      \<and> apply_conf_change ev (trace n) change = Some cs"
  have t1: "trace n1 = trace n"
    using h by (auto simp: update_registry_def split: conf_change_type.splits option.splits if_splits)
  obtain post where p: "trace (final (reply_config_change sq change (apply_change ev change n1)))
        = trace (apply_change ev change n1) @ post" "post = [] \<or> (\<exists>c r. post = [Put c r])"
    using reply_config_change_trace by blast
  have "new_events n (final (handle_config_change ev e n)) =
          [ApplyConfChange change, StoreSnapshot, SetConfState cs,
           Compact (get_applied ev (trace n @ [ApplyConfChange change])),
           CreateSnapshot (store_snapshot ev (trace n @ [ApplyConfChange change]))] @ post"
    using h p(1) t1
    by (intro new_events_append) (simp add: handle_config_change_def apply_change_trace)
  with p(2) show "\<exists>post. new_events n (final (handle_config_change ev e n)) =
          [ApplyConfChange change, StoreSnapshot, SetConfState cs,
           Compact (get_applied ev (trace n @ [ApplyConfChange change])),
           CreateSnapshot (store_snapshot ev (trace n @ [ApplyConfChange change]))] @ post
        \<and> (post = [] \<or> (\<exists>c r. post = [Put c r]))"
    by blast
qed

text \<open>
  A normal entry committed after the interval has elapsed, and the \<open>AddNode\<close> of a
  reserved id \<open>2\<close> for which \<open>apply_conf_change\<close> returns the voters \<open>[1, 2]\<close>.
\<close>

theorem compact_then_create_snapshot_witness:
  "new_events (waiting_node 1 [])
       (final (handle_normal late_env (normal_entry ''x'') (waiting_node 1 [])))
     = apply_events late_env 1 (normal_entry ''x'') (waiting_node 1 []) @
         [TimeTime, TimeTime, StoreSnapshot, Compact 7, CreateSnapshot ''state'']
   \<and> (\<exists>post. new_events (waiting_node 1 [(2, None)])
          (final (handle_config_change voters_env conf_entry (waiting_node 1 [(2, None)])))
        = [ApplyConfChange \<lparr>get_node_id = 2, get_change_type = AddNode, cc_context = ctx1\<rparr>,
           StoreSnapshot, SetConfState [1, 2], Compact 7, CreateSnapshot ''state''] @ post
        \<and> (post = [] \<or> (\<exists>c r. post = [Put c r])))"
proof -
  let ?n = "waiting_node 1 []"
  let ?e = "normal_entry ''x''"
  have h1: "decode_u64 late_env (get_context ?e) = Some 1
      \<and> time_time late_env (trace ?n @ apply_events late_env 1 ?e ?n) > last_snap_time ?n + 15"
    by (simp add: late_env_def quiet_env_def normal_entry_def decode_ctx1 waiting_node_def
          fresh_node_def)
  note c1 = compact_then_create_snapshot [where ev = late_env and e = ?e and sq = 1 and n = ?n, THEN conjunct1, THEN mp, OF h1]
  have v1: "get_applied late_env (trace ?n @ apply_events late_env 1 ?e ?n @ [TimeTime, TimeTime]) = 7"
    "store_snapshot late_env (trace ?n @ apply_events late_env 1 ?e ?n @ [TimeTime, TimeTime]) = ''state''"
    by (simp_all add: late_env_def quiet_env_def)
  let ?m = "waiting_node 1 [(2, None)]"
  let ?change = "\<lparr>get_node_id = 2, get_change_type = AddNode, cc_context = ctx1\<rparr>"
  let ?m1 = "?m\<lparr>peers := [(2, Some (RaftClient 1))]\<rparr>"
  have h2: "decode_u64 voters_env (get_context conf_entry) = Some 1
      \<and> conf_change_decode voters_env (get_data conf_entry) = Some ?change
      \<and> update_registry voters_env ?change ?m = Done ?m1
      \<and> apply_conf_change voters_env (trace ?m) ?change = Some [1, 2]"
    by (simp add: voters_env_def join_env_def quiet_env_def conf_entry_def decode_ctx1
          update_registry_def waiting_node_def fresh_node_def)
  note c2 = compact_then_create_snapshot [where ev = voters_env and e = conf_entry and sq = 1
      and n = ?m and change = ?change and ?n1.0 = ?m1 and cs = "[1, 2]",
      THEN conjunct2, THEN mp, OF h2]
  have v2: "get_applied voters_env (trace ?m @ [ApplyConfChange ?change]) = 7"
    "store_snapshot voters_env (trace ?m @ [ApplyConfChange ?change]) = ''state''"
    by (simp_all add: voters_env_def join_env_def quiet_env_def)
  show ?thesis using c1 [unfolded v1] c2 [unfolded v2] by blast
qed

text \<open>
  C1 as stated fails: with the timer fired, \<open>compact(7)\<close> is called before
  \<open>create_snapshot\<close>.
\<close>

theorem compact_precedes_create_snapshot:
  "new_events (waiting_node 1 []) (final (handle_normal late_env (normal_entry ''x'') (waiting_node 1 [])))
     = [StoreApply ''x'', Put 5 (RaftRespResponse ''ok''), TimeTime, TimeTime, StoreSnapshot,
        Compact 7, CreateSnapshot ''state'']"
  by (simp add: new_events_def handle_normal_def late_env_def quiet_env_def normal_entry_def
        decode_ctx1 waiting_node_def fresh_node_def snapshot_timer_trace apply_normal_fields
        apply_events_def)

section \<open>Proposals and their replies\<close>

lemma record_sender_fields:
  "record_sender c n = n\<lparr>seq := seq n + 1,
      client_senders := AList.update (seq n + 1) c (client_senders n)\<rparr>"
  by (simp add: record_sender_def Let_def)

lemma handle_entry_empty: "get_data e = [] \<Longrightarrow> handle_entry ev e n = Done n"
  by (simp add: handle_entry_def)

lemma handle_normal_done:
  "decode_u64 ev (get_context e) = Some sq \<Longrightarrow>
     handle_normal ev e n = Done (snapshot_timer ev (apply_normal ev sq e n))"
  by (simp add: handle_normal_def)

lemma snapshot_timer_puts: "puts (trace (snapshot_timer ev n)) = puts (trace n)"
  by (simp add: snapshot_timer_trace puts_append)

lemma snapshot_timer_extends: "\<exists>xs. trace (snapshot_timer ev n) = trace n @ xs \<and> puts xs = []"
  by (simp add: snapshot_timer_trace)

lemma new_events_puts:
  "trace m = trace n @ xs \<Longrightarrow> puts (new_events n m) = puts xs"
  by (simp add: new_events_def)

lemma puts_apply_events:
  "puts (apply_events ev sq e n) =
     (case map_of (client_senders n) sq of
        Some c \<Rightarrow> [(c, RaftRespResponse (store_apply ev (trace n) (get_data e)))]
      | None \<Rightarrow> [])"
  by (simp add: apply_events_def split: option.splits)

lemma update_registry_done:
  "update_registry ev change n = Done n1 \<Longrightarrow>
     trace n1 = trace n \<and> client_senders n1 = client_senders n \<and> node_id n1 = node_id n"
  by (auto simp: update_registry_def split: conf_change_type.splits option.splits if_splits)

lemma reply_config_change_done:
  "reply_config_change sq change n = Done m \<Longrightarrow>
     client_senders m = AList.delete sq (client_senders n)
     \<and> (case map_of (client_senders n) sq of
          Some c \<Rightarrow> (\<exists>r. trace m = trace n @ [Put c r])
        | None \<Rightarrow> trace m = trace n)"
  by (auto simp: reply_config_change_def pop_sender_def emit_simps
        split: option.splits conf_change_type.splits sum.splits)

lemma delete_absent: "map_of al k = None \<Longrightarrow> AList.delete k al = al"
  by (simp add: map_of_eq_None_iff)

lemma map_of_delete_same: "map_of (AList.delete k al) k = None"
  by (simp add: delete_conv')

lemma handle_entry_reply:
  assumes d: "handle_entry ev e n = Done m" and ne: "get_data e \<noteq> []"
    and sq: "decode_u64 ev (get_context e) = Some sq"
  shows "client_senders m = AList.delete sq (client_senders n)
     \<and> (case map_of (client_senders n) sq of
          Some c \<Rightarrow> (\<exists>r. puts (new_events n m) = [(c, r)])
        | None \<Rightarrow> puts (new_events n m) = [])"
proof (cases "get_entry_type e")
  case EntryNormal
  obtain xs where xs: "trace (snapshot_timer ev (apply_normal ev sq e n))
      = trace (apply_normal ev sq e n) @ xs" "puts xs = []"
    using snapshot_timer_extends by blast
  have m: "m = snapshot_timer ev (apply_normal ev sq e n)"
    using d ne sq EntryNormal by (simp add: handle_entry_def handle_normal_done)
  have t: "trace m = trace n @ (apply_events ev sq e n @ xs)"
    using xs by (simp add: m apply_normal_fields)
  have "puts (new_events n m) = puts (apply_events ev sq e n)"
    by (simp add: new_events_append [OF t] puts_append xs)
  then show ?thesis
    by (simp add: m snapshot_timer_fields apply_normal_fields puts_apply_events
          split: option.splits)
next
  case EntryConfChange
  from d ne sq EntryConfChange obtain change n1 where
    u: "update_registry ev change n = Done n1" and
    r: "reply_config_change sq change (apply_change ev change n1) = Done m"
    by (auto simp: handle_entry_def handle_config_change_def
          split: option.splits outcome.splits)
  note u' = update_registry_done [OF u]
  note r' = reply_config_change_done [OF r]
  have cs: "client_senders (apply_change ev change n1) = client_senders n"
    by (simp add: apply_change_fields u')
  have pt: "puts (trace (apply_change ev change n1)) = puts (trace n)"
    by (simp add: apply_change_puts u')
  obtain ys where ys: "trace (apply_change ev change n1) = trace n @ ys"
    by (simp add: apply_change_trace u')
  with pt have pys: "puts ys = []" by (simp add: puts_append)
  show ?thesis
  proof (cases "map_of (client_senders n) sq")
    case None
    with r' cs have "trace m = trace n @ ys" by (simp add: ys)
    then have "puts (new_events n m) = []"
      by (simp add: new_events_puts pys)
    with r' cs None show ?thesis by simp
  next
    case (Some c)
    with r' cs obtain rr where "trace m = trace n @ (ys @ [Put c rr])"
      by (auto simp: ys)
    then have "puts (new_events n m) = [(c, rr)]"
      by (simp add: new_events_puts puts_append pys)
    with r' cs Some show ?thesis by simp
  qed
next
  case EntryConfChangeV2
  with d ne show ?thesis by (simp add: handle_entry_def)
qed

text \<open>
  C2, as the source has it. The leader accepts a proposal whatever its payload: the
  sequence is incremented, the reply channel is recorded under it and \<open>propose\<close> is
  called with the encoded sequence and the payload. A committed entry with empty data is
  skipped by \<open>handle_committed_entries\<close>: nothing is applied, nothing is replied, nothing
  is removed from \<open>client_senders\<close>. A committed normal entry with non-empty data is
  applied with its data, and the channel recorded under its sequence receives the
  response.
\<close>

theorem empty_proposal_skipped:
  "(is_leader ev n \<longrightarrow>
      dispatch ev (Some (MessagePropose proposal c)) n =
        Done (emit [Propose (encode_u64 ev (seq n + 1)) proposal]
               (n\<lparr>seq := seq n + 1,
                  client_senders := AList.update (seq n + 1) c (client_senders n)\<rparr>)))
   \<and> (get_data e = [] \<longrightarrow>
        handle_committed_entries ev (e # es) n = handle_committed_entries ev es n)
   \<and> (get_data e \<noteq> [] \<and> get_entry_type e = EntryNormal
        \<and> decode_u64 ev (get_context e) = Some sq \<longrightarrow>
        (\<exists>m. handle_entry ev e n = Done m
           \<and> StoreApply (get_data e) \<in> set (new_events n m)
           \<and> (\<forall>ch. map_of (client_senders n) sq = Some ch \<longrightarrow>
                puts (new_events n m) =
                  [(ch, RaftRespResponse (store_apply ev (trace n) (get_data e)))])))"
proof (intro conjI impI)
  show "dispatch ev (Some (MessagePropose proposal c)) n =
        Done (emit [Propose (encode_u64 ev (seq n + 1)) proposal]
               (n\<lparr>seq := seq n + 1,
                  client_senders := AList.update (seq n + 1) c (client_senders n)\<rparr>))"
    if "is_leader ev n"
    using that by (simp add: record_sender_fields)
  show "handle_committed_entries ev (e # es) n = handle_committed_entries ev es n"
    if "get_data e = []"
    using that by (simp add: handle_entry_empty)
  assume h: "get_data e \<noteq> [] \<and> get_entry_type e = EntryNormal
        \<and> decode_u64 ev (get_context e) = Some sq"
  let ?m = "snapshot_timer ev (apply_normal ev sq e n)"
  obtain xs where xs: "trace ?m = trace (apply_normal ev sq e n) @ xs" "puts xs = []"
    using snapshot_timer_extends by blast
  have d: "handle_entry ev e n = Done ?m"
    using h by (simp add: handle_entry_def handle_normal_done)
  have t: "trace ?m = trace n @ (apply_events ev sq e n @ xs)"
    using xs by (simp add: apply_normal_fields)
  have a: "StoreApply (get_data e) \<in> set (new_events n ?m)"
    by (simp add: new_events_append [OF t] apply_events_def)
  have p: "puts (new_events n ?m) = puts (apply_events ev sq e n)"
    by (simp add: new_events_append [OF t] puts_append xs)
  show "\<exists>m. handle_entry ev e n = Done m
           \<and> StoreApply (get_data e) \<in> set (new_events n m)
           \<and> (\<forall>ch. map_of (client_senders n) sq = Some ch \<longrightarrow>
                puts (new_events n m) =
                  [(ch, RaftRespResponse (store_apply ev (trace n) (get_data e)))])"
    using d a p by (auto simp: puts_apply_events)
qed

text \<open>
  The leader \<open>1\<close> accepts the empty proposal; an entry with empty data is skipped; the
  entry \<open>x\<close> is applied and answered with the store's \<open>ok\<close> on channel \<open>5\<close>.
\<close>

theorem empty_proposal_skipped_witness:
  "dispatch quiet_env (Some (MessagePropose [] 5)) (fresh_node 1 []) =
     Done (emit [Propose (encode_u64 quiet_env (seq (fresh_node 1 []) + 1)) []]
            ((fresh_node 1 [])\<lparr>seq := seq (fresh_node 1 []) + 1,
               client_senders := AList.update (seq (fresh_node 1 []) + 1) 5
                 (client_senders (fresh_node 1 []))\<rparr>))
   \<and> handle_committed_entries quiet_env [normal_entry []] (waiting_node 1 [])
       = Done (waiting_node 1 [])
   \<and> (\<exists>m. handle_entry quiet_env (normal_entry ''x'') (waiting_node 1 []) = Done m
         \<and> StoreApply ''x'' \<in> set (new_events (waiting_node 1 []) m)
         \<and> puts (new_events (waiting_node 1 []) m) = [(5, RaftRespResponse ''ok'')])"
proof -
  have l: "is_leader quiet_env (fresh_node 1 [])"
    by (simp add: is_leader_def quiet_env_def fresh_node_def)
  note c1 = empty_proposal_skipped [where ev = quiet_env and n = "fresh_node 1 []"
      and proposal = "[]" and c = 5, THEN conjunct1, THEN mp, OF l]
  have e: "get_data (normal_entry []) = []" by (simp add: normal_entry_def)
  note c2 = empty_proposal_skipped [where ev = quiet_env and e = "normal_entry []"
      and es = "[]" and n = "waiting_node 1 []", THEN conjunct2, THEN conjunct1, THEN mp, OF e]
  have h: "get_data (normal_entry ''x'') \<noteq> [] \<and> get_entry_type (normal_entry ''x'') = EntryNormal
        \<and> decode_u64 quiet_env (get_context (normal_entry ''x'')) = Some 1"
    by (simp add: normal_entry_def quiet_env_def decode_ctx1)
  note c3 = empty_proposal_skipped [where ev = quiet_env and e = "normal_entry ''x''"
      and sq = 1 and n = "waiting_node 1 []", THEN conjunct2, THEN conjunct2, THEN mp, OF h]
  have s: "map_of (client_senders (waiting_node 1 [])) 1 = Some 5"
    by (simp add: waiting_node_def)
  have v: "store_apply quiet_env (trace (waiting_node 1 [])) ''x'' = ''ok''"
    "get_data (normal_entry ''x'') = ''x''"
    by (simp_all add: quiet_env_def normal_entry_def)
  from c3 s have c3': "\<exists>m. handle_entry quiet_env (normal_entry ''x'') (waiting_node 1 []) = Done m
         \<and> StoreApply ''x'' \<in> set (new_events (waiting_node 1 []) m)
         \<and> puts (new_events (waiting_node 1 []) m) = [(5, RaftRespResponse ''ok'')]"
    unfolding v by blast
  have c2': "handle_committed_entries quiet_env [normal_entry []] (waiting_node 1 [])
       = Done (waiting_node 1 [])"
    using c2 by (simp only: handle_committed_entries.simps)
  show ?thesis using c1 c2' c3' by blast
qed


text \<open>
  C2 as stated fails: the empty proposal is accepted under sequence \<open>1\<close>, and when the
  entry commits the node is left as it was: no \<open>apply\<close>, no reply, channel \<open>5\<close> still
  waiting.
\<close>

theorem empty_proposal_not_applied:
  "dispatch quiet_env (Some (MessagePropose [] 5)) (fresh_node 1 [])
     = Done \<lparr>node_id = 1, peers = [], should_quit = False, seq = 1, last_snap_time = 0,
             client_senders = [(1, 5)], trace = [Propose (encode_u64_be 1) []]\<rparr>
   \<and> decode_u64_be (encode_u64_be 1) = Some 1
   \<and> handle_committed_entries quiet_env
        [\<lparr>get_entry_type = EntryNormal, get_data = [], get_context = encode_u64_be 1\<rparr>]
        \<lparr>node_id = 1, peers = [], should_quit = False, seq = 1, last_snap_time = 0,
          client_senders = [(1, 5)], trace = [Propose (encode_u64_be 1) []]\<rparr>
     = Done \<lparr>node_id = 1, peers = [], should_quit = False, seq = 1, last_snap_time = 0,
             client_senders = [(1, 5)], trace = [Propose (encode_u64_be 1) []]\<rparr>"
  by (simp add: quiet_env_def fresh_node_def is_leader_def record_sender_def emit_def
        handle_entry_def decode_u64_be_def encode_u64_be_def)


text \<open>
  C7, as the source has it. A committed normal entry with non-empty data is always handled
  to the end. Whenever a committed entry with non-empty data (normal or conf change) is
  handled to the end: if its sequence is in \<open>client_senders\<close>, exactly one response is put
  on that channel and the sequence is removed from the table, so handling the entry again
  finds no channel; if the sequence is absent, no response is put and the table is
  unchanged. (An entry with empty data is skipped and leaves the table as it is.)
\<close>

theorem reply_exactly_once:
  "(get_data e \<noteq> [] \<and> get_entry_type e = EntryNormal
      \<and> decode_u64 ev (get_context e) = Some sq \<longrightarrow> (\<exists>m'. handle_entry ev e n = Done m'))
   \<and> (handle_entry ev e n = Done m \<and> get_data e \<noteq> []
      \<and> decode_u64 ev (get_context e) = Some sq \<longrightarrow>
        (\<forall>c. map_of (client_senders n) sq = Some c \<longrightarrow>
           (\<exists>r. puts (new_events n m) = [(c, r)])
           \<and> client_senders m = AList.delete sq (client_senders n)
           \<and> map_of (client_senders m) sq = None)
      \<and> (map_of (client_senders n) sq = None \<longrightarrow>
           puts (new_events n m) = [] \<and> client_senders m = client_senders n))"
proof (intro conjI impI allI)
  show "\<exists>m'. handle_entry ev e n = Done m'"
    if "get_data e \<noteq> [] \<and> get_entry_type e = EntryNormal
      \<and> decode_u64 ev (get_context e) = Some sq"
    using that by (simp add: handle_entry_def handle_normal_done)
next
  fix c
  assume h: "handle_entry ev e n = Done m \<and> get_data e \<noteq> []
      \<and> decode_u64 ev (get_context e) = Some sq"
    and s: "map_of (client_senders n) sq = Some c"
  from h have r: "client_senders m = AList.delete sq (client_senders n)
     \<and> (case map_of (client_senders n) sq of
          Some c \<Rightarrow> (\<exists>r. puts (new_events n m) = [(c, r)])
        | None \<Rightarrow> puts (new_events n m) = [])"
    using handle_entry_reply [of ev e n m sq] by blast
  show "\<exists>r. puts (new_events n m) = [(c, r)]" using r s by simp
  show "client_senders m = AList.delete sq (client_senders n)" using r by simp
  show "map_of (client_senders m) sq = None" using r by (simp add: map_of_delete_same)
next
  assume h: "handle_entry ev e n = Done m \<and> get_data e \<noteq> []
      \<and> decode_u64 ev (get_context e) = Some sq"
    and s: "map_of (client_senders n) sq = None"
  from h have r: "client_senders m = AList.delete sq (client_senders n)
     \<and> (case map_of (client_senders n) sq of
          Some c \<Rightarrow> (\<exists>r. puts (new_events n m) = [(c, r)])
        | None \<Rightarrow> puts (new_events n m) = [])"
    using handle_entry_reply [of ev e n m sq] by blast
  show "puts (new_events n m) = []" using r s by simp
  show "client_senders m = client_senders n" using r s by (simp add: delete_absent)
qed

text \<open>
  The entry \<open>x\<close> with sequence \<open>1\<close>, committed on a node where channel \<open>5\<close> waits
  under \<open>1\<close>, and on a node with an empty table.
\<close>

theorem reply_exactly_once_witness:
  "(\<exists>m'. handle_entry quiet_env (normal_entry ''x'') (waiting_node 1 []) = Done m')
   \<and> (\<exists>r. puts (new_events (waiting_node 1 [])
          (snapshot_timer quiet_env (apply_normal quiet_env 1 (normal_entry ''x'') (waiting_node 1 []))))
        = [(5, r)])
   \<and> map_of (client_senders
        (snapshot_timer quiet_env (apply_normal quiet_env 1 (normal_entry ''x'') (waiting_node 1 [])))) 1
       = None
   \<and> puts (new_events (fresh_node 1 [])
        (snapshot_timer quiet_env (apply_normal quiet_env 1 (normal_entry ''x'') (fresh_node 1 []))))
       = []"
proof -
  let ?e = "normal_entry ''x''"
  let ?n = "waiting_node 1 []"
  let ?m = "snapshot_timer quiet_env (apply_normal quiet_env 1 ?e ?n)"
  let ?n' = "fresh_node 1 []"
  let ?m' = "snapshot_timer quiet_env (apply_normal quiet_env 1 ?e ?n')"
  have e: "get_data ?e \<noteq> []" "get_entry_type ?e = EntryNormal"
    "decode_u64 quiet_env (get_context ?e) = Some 1"
    by (simp_all add: normal_entry_def quiet_env_def decode_ctx1)
  have h1: "get_data ?e \<noteq> [] \<and> get_entry_type ?e = EntryNormal
      \<and> decode_u64 quiet_env (get_context ?e) = Some 1"
    using e by simp
  note c1 = reply_exactly_once [where ev = quiet_env and e = ?e and sq = 1 and n = ?n,
      THEN conjunct1, THEN mp, OF h1]
  have h2: "handle_entry quiet_env ?e ?n = Done ?m \<and> get_data ?e \<noteq> []
      \<and> decode_u64 quiet_env (get_context ?e) = Some 1"
    using e by (simp add: handle_entry_def handle_normal_done)
  have s: "map_of (client_senders ?n) 1 = Some 5" by (simp add: waiting_node_def)
  note c2 = reply_exactly_once [where ev = quiet_env and e = ?e and sq = 1 and n = ?n
      and m = ?m, THEN conjunct2, THEN mp, OF h2, THEN conjunct1, THEN spec, THEN mp, OF s]
  have h3: "handle_entry quiet_env ?e ?n' = Done ?m' \<and> get_data ?e \<noteq> []
      \<and> decode_u64 quiet_env (get_context ?e) = Some 1"
    using e by (simp add: handle_entry_def handle_normal_done)
  have s': "map_of (client_senders ?n') 1 = None" by (simp add: fresh_node_def)
  note c3 = reply_exactly_once [where ev = quiet_env and e = ?e and sq = 1 and n = ?n'
      and m = ?m', THEN conjunct2, THEN mp, OF h3, THEN conjunct2, THEN mp, OF s']
  show ?thesis using c1 c2 c3 by blast
qed

text \<open>
  C7 as stated fails for a committed proposal with empty data: its sequence \<open>1\<close> is in
  the table, no response is put and the table keeps the entry.
\<close>

theorem empty_entry_keeps_sender:
  "decode_u64 quiet_env (get_context (normal_entry [])) = Some 1
   \<and> map_of (client_senders (waiting_node 1 [])) 1 = Some 5
   \<and> puts (new_events (waiting_node 1 [])
        (final (handle_committed_entries quiet_env [normal_entry []] (waiting_node 1 [])))) = []
   \<and> client_senders (final (handle_committed_entries quiet_env [normal_entry []]
        (waiting_node 1 []))) = [(1, 5)]"
  by (simp add: quiet_env_def normal_entry_def decode_ctx1 waiting_node_def fresh_node_def
        handle_entry_def new_events_def)

section \<open>Mailbox redirection\<close>

text \<open>A call of \<open>__handle_response\<close> reroutes at most once.\<close>

lemma handle_response_reroutes_once:
  "length (snd (handle_response rr mb resp ty pd cc)) \<le> 1"
  by (simp add: handle_response_def Let_def
        split: response_message.splits option.splits reroute_reply.splits)

text \<open>
  C5. On \<open>WrongLeader\<close> both \<open>send\<close> and \<open>leave\<close> reroute once to the leader's client.
  When the answer to the rerouted request is not a \<open>SendMessageResponse\<close>, the source
  reaches \<open>assert False\<close> under its comment "TODO: handle this case. The leader might
  change in the meanwhile": the call fails with \<open>AssertionError\<close>, where the claim asks
  for \<open>LeadershipUnstable\<close>.
\<close>

theorem reroute_failure_is_assertion_error:
  "mailbox_send churning_leader follower_mailbox ''x'' (Some WrongLeaderRespMessage)
     = (Inl AssertionError,
        [\<lparr>rc_client = 11, rc_msg_type = ReroutePropose, rc_conf_change = None,
          rc_msg_bytes = Some ''x''\<rparr>])
   \<and> mailbox_leave churning_leader follower_mailbox 3 ''addr'' WrongLeaderRespMessage
     = (Inl AssertionError,
        [\<lparr>rc_client = 11, rc_msg_type = RerouteConfChange,
          rc_conf_change = Some \<lparr>get_node_id = 3, get_change_type = RemoveNode,
                                   cc_context = ''addr''\<rparr>,
          rc_msg_bytes = None\<rparr>])"
  by (simp add: mailbox_send_def mailbox_leave_def handle_response_def churning_leader_def
        follower_mailbox_def)

section \<open>Order of the readiness cycle\<close>

lemma handler_event_not_install: "handler_event x \<Longrightarrow> \<not> is_apply_snapshot x"
  by (cases x) simp_all

lemma handler_event_not_task: "handler_event x \<Longrightarrow> \<not> is_sender_task x"
  by (cases x) simp_all

lemma sender_tasks_not_install: "x \<in> set (sender_tasks ps ms) \<Longrightarrow> \<not> is_apply_snapshot x"
  using sender_tasks_only [of x ps ms] by auto

lemma before_appendI:
  "\<forall>x \<in> set xs. \<not> P x \<Longrightarrow> before a P ys \<Longrightarrow> before a P (xs @ ys)"
  by (induction xs) simp_all

lemma before_noneI: "\<forall>x \<in> set xs. \<not> P x \<Longrightarrow> before a P xs"
  using before_appendI [of xs P a "[]"] by simp

lemma ready_prefix_tasks:
  "x \<in> set (ready_prefix n rd) \<Longrightarrow> is_sender_task x \<Longrightarrow>
     x \<in> set (sender_tasks (peers n) (rd_messages rd))"
  by (auto simp: ready_prefix_def split: if_splits)

lemma apply_events_handler: "\<forall>x \<in> set (apply_events ev sq e n). handler_event x"
  by (cases "map_of (client_senders n) sq") (simp_all add: apply_events_def)

lemma snapshot_timer_events:
  "\<exists>xs. trace (snapshot_timer ev n) = trace n @ xs \<and> (\<forall>x \<in> set xs. handler_event x)"
  by (simp add: snapshot_timer_trace)

lemma apply_change_events:
  "\<exists>xs. trace (apply_change ev change n) = trace n @ xs \<and> (\<forall>x \<in> set xs. handler_event x)"
  by (cases "apply_conf_change ev (trace n) change") (simp_all add: apply_change_trace)

lemma handle_normal_events:
  "\<exists>xs. trace (final (handle_normal ev e n)) = trace n @ xs \<and> (\<forall>x \<in> set xs. handler_event x)"
proof (cases "decode_u64 ev (get_context e)")
  case None
  then show ?thesis by (simp add: handle_normal_def)
next
  case (Some sq)
  obtain xs where xs: "trace (snapshot_timer ev (apply_normal ev sq e n))
      = trace (apply_normal ev sq e n) @ xs" "\<forall>x \<in> set xs. handler_event x"
    using snapshot_timer_events by blast
  have "trace (final (handle_normal ev e n)) = trace n @ (apply_events ev sq e n @ xs)"
    using Some xs(1) by (simp add: handle_normal_def apply_normal_fields)
  moreover have "\<forall>x \<in> set (apply_events ev sq e n @ xs). handler_event x"
    using xs(2) apply_events_handler by auto
  ultimately show ?thesis by blast
qed

lemma update_registry_trace: "trace (final (update_registry ev change n)) = trace n"
  by (simp add: update_registry_def split: conf_change_type.splits option.splits)

lemma handle_config_change_events:
  "\<exists>xs. trace (final (handle_config_change ev e n)) = trace n @ xs
        \<and> (\<forall>x \<in> set xs. handler_event x)"
proof (cases "decode_u64 ev (get_context e)")
  case None
  then show ?thesis by (simp add: handle_config_change_def)
next
  case sq: (Some sq)
  show ?thesis
  proof (cases "conf_change_decode ev (get_data e)")
    case None
    with sq show ?thesis by (simp add: handle_config_change_def)
  next
    case (Some change)
    show ?thesis
    proof (cases "update_registry ev change n")
      case (Raised err m)
      with update_registry_trace [of ev change n] have "trace m = trace n" by simp
      with sq Some Raised show ?thesis by (simp add: handle_config_change_def)
    next
      case (Done n1)
      with update_registry_trace [of ev change n] have t1: "trace n1 = trace n" by simp
      obtain zs where zs: "trace (apply_change ev change n1) = trace n1 @ zs"
          "\<forall>x \<in> set zs. handler_event x"
        using apply_change_events by blast
      obtain post where p:
        "trace (final (reply_config_change sq change (apply_change ev change n1)))
           = trace (apply_change ev change n1) @ post"
        "post = [] \<or> (\<exists>c r. post = [Put c r])"
        using reply_config_change_trace by blast
      from p(2) have hp: "\<forall>x \<in> set post. handler_event x" by auto
      have "trace (final (handle_config_change ev e n)) = trace n @ (zs @ post)"
        using sq Some Done p(1) t1 zs(1) by (simp add: handle_config_change_def)
      moreover have "\<forall>x \<in> set (zs @ post). handler_event x"
        using hp zs(2) by auto
      ultimately show ?thesis by blast
    qed
  qed
qed

lemma handle_entry_events:
  "\<exists>xs. trace (final (handle_entry ev e n)) = trace n @ xs \<and> (\<forall>x \<in> set xs. handler_event x)"
  using handle_normal_events [of ev e n] handle_config_change_events [of ev e n]
  by (simp add: handle_entry_def split: entry_type.splits)

lemma handle_committed_entries_events:
  "\<exists>xs. trace (final (handle_committed_entries ev es n)) = trace n @ xs
        \<and> (\<forall>x \<in> set xs. handler_event x)"
proof (induction es arbitrary: n)
  case Nil
  then show ?case by simp
next
  case (Cons e es)
  obtain xs where xs: "trace (final (handle_entry ev e n)) = trace n @ xs"
      "\<forall>x \<in> set xs. handler_event x"
    using handle_entry_events by blast
  show ?case
  proof (cases "handle_entry ev e n")
    case (Raised err m)
    with xs show ?thesis by auto
  next
    case (Done m)
    obtain ys where ys: "trace (final (handle_committed_entries ev es m)) = trace m @ ys"
        "\<forall>x \<in> set ys. handler_event x"
      using Cons.IH by blast
    from Done xs ys have "trace (final (handle_committed_entries ev (e # es) n))
        = trace n @ (xs @ ys)" by simp
    moreover from xs ys have "\<forall>x \<in> set (xs @ ys). handler_event x" by auto
    ultimately show ?thesis by blast
  qed
qed

lemma persist_ready_trace:
  "trace (persist_ready rd n) =
     trace n @ Append (rd_entries rd) # hard_state_events rd @
       sender_tasks (peers n) (rd_persisted_messages rd)"
  by (cases "rd_persisted_messages rd = []")
     (simp_all add: persist_ready_def hard_state_events_def Let_def emit_simps
        send_messages_tasks split: option.splits)

lemma advance_ready_events:
  "\<exists>xs. trace (final (advance_ready ev n)) = trace n @ Advance # xs
        \<and> (\<forall>x \<in> set xs. \<not> is_apply_snapshot x)"
proof -
  let ?l = "raw_advance ev (trace n)"
  let ?c = "case lrd_commit_index ?l of
              Some c \<Rightarrow> (if c \<noteq> 0 then [SetHardStateCommit c] else []) | None \<Rightarrow> []"
  let ?n3 = "emit (Advance # ?c @ sender_tasks (peers n) (lrd_messages ?l)) n"
  have n3: "send_messages (lrd_messages ?l)
      (case lrd_commit_index ?l of
         Some c \<Rightarrow> (if c \<noteq> 0 then emit [SetHardStateCommit c] (emit [Advance] n)
                    else emit [Advance] n)
       | None \<Rightarrow> emit [Advance] n) = ?n3"
    by (simp add: send_messages_tasks emit_simps emit_emit split: option.splits)
  obtain ys where ys:
    "trace (final (handle_committed_entries ev (lrd_committed_entries ?l) ?n3)) = trace ?n3 @ ys"
    "\<forall>x \<in> set ys. handler_event x"
    using handle_committed_entries_events by blast
  have pre: "\<forall>x \<in> set (?c @ sender_tasks (peers n) (lrd_messages ?l)).
      \<not> is_apply_snapshot x"
    using sender_tasks_not_install by (auto split: option.splits if_splits)
  show ?thesis
  proof (cases "handle_committed_entries ev (lrd_committed_entries ?l) ?n3")
    case (Raised err m)
    with ys have "trace (final (advance_ready ev n))
        = trace n @ Advance # ((?c @ sender_tasks (peers n) (lrd_messages ?l)) @ ys)"
      by (simp add: advance_ready_def Let_def n3 emit_simps)
    moreover have "\<forall>x \<in> set ((?c @ sender_tasks (peers n) (lrd_messages ?l)) @ ys).
        \<not> is_apply_snapshot x"
      using pre ys(2) handler_event_not_install by auto
    ultimately show ?thesis by blast
  next
    case (Done m)
    with ys have "trace (final (advance_ready ev n))
        = trace n @ Advance # ((?c @ sender_tasks (peers n) (lrd_messages ?l)) @ ys @ [AdvanceApply])"
      by (simp add: advance_ready_def Let_def n3 emit_simps)
    moreover have "\<forall>x \<in> set ((?c @ sender_tasks (peers n) (lrd_messages ?l)) @ ys
          @ [AdvanceApply]). \<not> is_apply_snapshot x"
      using pre ys(2) handler_event_not_install by auto
    ultimately show ?thesis by blast
  qed
qed

lemma on_ready_unfold:
  assumes r: "raw_ready ev (trace n) = Some rd"
  shows "on_ready ev n =
      (case handle_committed_entries ev (rd_committed_entries rd) (emit (ready_prefix n rd) n) of
         Raised err m \<Rightarrow> Raised err m
       | Done n3 \<Rightarrow> advance_ready ev (persist_ready rd n3))"
proof -
  have "(if rd_snapshot rd \<noteq> snapshot_default
         then emit [StoreRestore (snap_data (rd_snapshot rd)), ApplySnapshot (rd_snapshot rd)]
                (send_messages (rd_messages rd) (emit [TakeReady] n))
         else send_messages (rd_messages rd) (emit [TakeReady] n)) = emit (ready_prefix n rd) n"
    by (simp add: ready_prefix_def send_messages_tasks emit_simps emit_emit)
  with r show ?thesis by (simp add: on_ready_def Let_def)
qed

lemma on_ready_shape:
  assumes r: "raw_ready ev (trace n) = Some rd"
  shows "\<exists>ce post.
      new_events n (final (on_ready ev n)) = ready_prefix n rd @ ce @ post
      \<and> (\<forall>x \<in> set ce. handler_event x)
      \<and> (post = [] \<and> (\<forall>m. on_ready ev n \<noteq> Done m)
          \<or> (\<exists>n3 tl. handle_committed_entries ev (rd_committed_entries rd)
                        (emit (ready_prefix n rd) n) = Done n3
                \<and> post = Append (rd_entries rd) # hard_state_events rd @
                         sender_tasks (peers n3) (rd_persisted_messages rd) @ Advance # tl
                \<and> (\<forall>x \<in> set tl. \<not> is_apply_snapshot x)))"
proof -
  let ?n2 = "emit (ready_prefix n rd) n"
  obtain ce where ce:
    "trace (final (handle_committed_entries ev (rd_committed_entries rd) ?n2)) = trace ?n2 @ ce"
    "\<forall>x \<in> set ce. handler_event x"
    using handle_committed_entries_events by blast
  note unfold = on_ready_unfold [OF r]
  show ?thesis
  proof (cases "handle_committed_entries ev (rd_committed_entries rd) ?n2")
    case (Raised err m)
    with ce unfold have "trace (final (on_ready ev n)) = trace n @ (ready_prefix n rd @ ce @ [])"
      by (simp add: emit_simps)
    then have "new_events n (final (on_ready ev n)) = ready_prefix n rd @ ce @ []"
      by (rule new_events_append)
    moreover have "\<forall>m. on_ready ev n \<noteq> Done m"
      using unfold Raised by simp
    ultimately show ?thesis using ce(2) by blast
  next
    case (Done n3)
    let ?p = "persist_ready rd n3"
    obtain tl where tl: "trace (final (advance_ready ev ?p)) = trace ?p @ Advance # tl"
        "\<forall>x \<in> set tl. \<not> is_apply_snapshot x"
      using advance_ready_events by blast
    let ?post = "Append (rd_entries rd) # hard_state_events rd @
        sender_tasks (peers n3) (rd_persisted_messages rd) @ Advance # tl"
    have n3: "trace n3 = trace n @ ready_prefix n rd @ ce"
      using ce(1) Done by (simp add: emit_simps)
    have "trace (final (on_ready ev n)) = trace n @ (ready_prefix n rd @ ce @ ?post)"
      using unfold Done tl(1) n3 by (simp add: persist_ready_trace)
    then have "new_events n (final (on_ready ev n)) = ready_prefix n rd @ ce @ ?post"
      by (rule new_events_append)
    with ce(2) tl(2) Done show ?thesis by blast
  qed
qed


lemma hard_state_events_not_install: "x \<in> set (hard_state_events rd) \<Longrightarrow> \<not> is_apply_snapshot x"
  by (auto simp: hard_state_events_def split: option.splits)

lemma restore_before_apply_snapshot:
  assumes e: "new = ready_prefix n rd @ rest"
    and rest: "\<forall>x \<in> set rest. \<not> is_apply_snapshot x"
  shows "before (StoreRestore (snap_data (rd_snapshot rd))) is_apply_snapshot new"
proof -
  let ?tasks = "TakeReady # sender_tasks (peers n) (rd_messages rd)"
  have t: "\<forall>x \<in> set ?tasks. \<not> is_apply_snapshot x"
    using sender_tasks_not_install by auto
  show ?thesis
  proof (cases "rd_snapshot rd \<noteq> snapshot_default")
    case True
    then have n: "new = ?tasks @ (StoreRestore (snap_data (rd_snapshot rd)) #
        ApplySnapshot (rd_snapshot rd) # rest)"
      using e by (simp add: ready_prefix_def)
    have x: "before (StoreRestore (snap_data (rd_snapshot rd))) is_apply_snapshot
        (StoreRestore (snap_data (rd_snapshot rd)) # ApplySnapshot (rd_snapshot rd) # rest)"
      by simp
    show ?thesis unfolding n by (rule before_appendI [OF t x])
  next
    case False
    then have n: "new = ?tasks @ rest" using e by (simp add: ready_prefix_def)
    have "\<forall>x \<in> set (?tasks @ rest). \<not> is_apply_snapshot x" using t rest by auto
    then show ?thesis unfolding n by (rule before_noneI)
  qed
qed

text \<open>
  C3. A readiness cycle with nothing ready does nothing. In a readiness cycle on a batch
  \<open>rd\<close>, the events of the cycle are, in this order: the prefix (taking the batch, the
  sender tasks of \<open>rd.messages()\<close>, and for a non-empty snapshot the store's \<open>restore\<close>
  followed by \<open>apply_snapshot\<close>); the events of the handlers of the committed entries,
  none of which is a sender task; and then either nothing (a handler raised, the cycle does
  not complete) or \<open>storage.append(rd.entries())\<close>, the hard state, the sender tasks of
  \<open>rd.persisted_messages()\<close>, and \<open>advance\<close> with what follows it. So the persisted
  messages are dispatched after the append, and every sender task created before the
  append belongs to the dispatch of \<open>rd.messages()\<close>. No \<open>apply_snapshot\<close> occurs
  before the store's \<open>restore\<close> of the snapshot data; a non-empty snapshot is applied
  to storage whether or not the cycle completes, and a cycle that completes has appended
  the entries.
\<close>

theorem append_precedes_persisted_dispatch:
  "(raw_ready ev (trace n) = None \<longrightarrow> on_ready ev n = Done n)
   \<and> (raw_ready ev (trace n) = Some rd \<longrightarrow>
        (\<exists>ce post.
           new_events n (final (on_ready ev n)) = ready_prefix n rd @ ce @ post
           \<and> (\<forall>x \<in> set ce. handler_event x)
           \<and> (\<forall>x \<in> set (ready_prefix n rd @ ce).
                 is_sender_task x \<longrightarrow> x \<in> set (sender_tasks (peers n) (rd_messages rd)))
           \<and> (post = [] \<and> (\<forall>m. on_ready ev n \<noteq> Done m)
               \<or> (\<exists>n3 tl. handle_committed_entries ev (rd_committed_entries rd)
                             (emit (ready_prefix n rd) n) = Done n3
                     \<and> post = Append (rd_entries rd) # hard_state_events rd @
                              sender_tasks (peers n3) (rd_persisted_messages rd) @ Advance # tl)))
        \<and> before (StoreRestore (snap_data (rd_snapshot rd))) is_apply_snapshot
             (new_events n (final (on_ready ev n)))
        \<and> (rd_snapshot rd \<noteq> snapshot_default \<longrightarrow>
             ApplySnapshot (rd_snapshot rd) \<in> set (new_events n (final (on_ready ev n))))
        \<and> (\<forall>m. on_ready ev n = Done m \<longrightarrow> Append (rd_entries rd) \<in> set (new_events n m)))"
proof -
  have a: "on_ready ev n = Done n" if "raw_ready ev (trace n) = None"
    using that by (simp add: on_ready_def)
  have b: "(\<exists>ce post.
           new_events n (final (on_ready ev n)) = ready_prefix n rd @ ce @ post
           \<and> (\<forall>x \<in> set ce. handler_event x)
           \<and> (\<forall>x \<in> set (ready_prefix n rd @ ce).
                 is_sender_task x \<longrightarrow> x \<in> set (sender_tasks (peers n) (rd_messages rd)))
           \<and> (post = [] \<and> (\<forall>m. on_ready ev n \<noteq> Done m)
               \<or> (\<exists>n3 tl. handle_committed_entries ev (rd_committed_entries rd)
                             (emit (ready_prefix n rd) n) = Done n3
                     \<and> post = Append (rd_entries rd) # hard_state_events rd @
                              sender_tasks (peers n3) (rd_persisted_messages rd) @ Advance # tl)))
        \<and> before (StoreRestore (snap_data (rd_snapshot rd))) is_apply_snapshot
             (new_events n (final (on_ready ev n)))
        \<and> (rd_snapshot rd \<noteq> snapshot_default \<longrightarrow>
             ApplySnapshot (rd_snapshot rd) \<in> set (new_events n (final (on_ready ev n))))
        \<and> (\<forall>m. on_ready ev n = Done m \<longrightarrow> Append (rd_entries rd) \<in> set (new_events n m))"
    if r: "raw_ready ev (trace n) = Some rd"
  proof -
    let ?new = "new_events n (final (on_ready ev n))"
    obtain ce post where e: "?new = ready_prefix n rd @ ce @ post"
      and ce: "\<forall>x \<in> set ce. handler_event x"
      and shape: "post = [] \<and> (\<forall>m. on_ready ev n \<noteq> Done m)
          \<or> (\<exists>n3 tl. handle_committed_entries ev (rd_committed_entries rd)
                        (emit (ready_prefix n rd) n) = Done n3
                \<and> post = Append (rd_entries rd) # hard_state_events rd @
                         sender_tasks (peers n3) (rd_persisted_messages rd) @ Advance # tl
                \<and> (\<forall>x \<in> set tl. \<not> is_apply_snapshot x))"
      using on_ready_shape [OF r] by blast
    have tasks: "\<forall>x \<in> set (ready_prefix n rd @ ce).
        is_sender_task x \<longrightarrow> x \<in> set (sender_tasks (peers n) (rd_messages rd))"
      using ce handler_event_not_task ready_prefix_tasks by auto
    have post: "\<forall>x \<in> set post. \<not> is_apply_snapshot x"
      using shape sender_tasks_not_install hard_state_events_not_install by auto
    have rest: "\<forall>x \<in> set (ce @ post). \<not> is_apply_snapshot x"
      using ce post handler_event_not_install by auto
    have c1: "\<exists>ce post.
           ?new = ready_prefix n rd @ ce @ post
           \<and> (\<forall>x \<in> set ce. handler_event x)
           \<and> (\<forall>x \<in> set (ready_prefix n rd @ ce).
                 is_sender_task x \<longrightarrow> x \<in> set (sender_tasks (peers n) (rd_messages rd)))
           \<and> (post = [] \<and> (\<forall>m. on_ready ev n \<noteq> Done m)
               \<or> (\<exists>n3 tl. handle_committed_entries ev (rd_committed_entries rd)
                             (emit (ready_prefix n rd) n) = Done n3
                     \<and> post = Append (rd_entries rd) # hard_state_events rd @
                              sender_tasks (peers n3) (rd_persisted_messages rd) @ Advance # tl))"
      using e ce tasks shape by blast
    have c2: "before (StoreRestore (snap_data (rd_snapshot rd))) is_apply_snapshot ?new"
      using e rest by (intro restore_before_apply_snapshot [where rest = "ce @ post"]) simp_all
    have c3: "rd_snapshot rd \<noteq> snapshot_default \<longrightarrow> ApplySnapshot (rd_snapshot rd) \<in> set ?new"
      unfolding e by (simp add: ready_prefix_def)
    have c4: "\<forall>m. on_ready ev n = Done m \<longrightarrow> Append (rd_entries rd) \<in> set (new_events n m)"
    proof (intro allI impI)
      fix m assume m: "on_ready ev n = Done m"
      with shape obtain tl' where "post = Append (rd_entries rd) # tl'" by blast
      with e have "Append (rd_entries rd) \<in> set ?new" by simp
      with m show "Append (rd_entries rd) \<in> set (new_events n m)" by simp
    qed
    show ?thesis using c1 c2 c3 c4 by blast
  qed
  show ?thesis using a b by blast
qed


text \<open>
  The cycle event by event, on a batch whose persisted message differs from its message
  and on one where the same message is in both lists.
\<close>

lemma ready_cycle_trace:
  "on_ready ready_env (waiting_node 1 [(2, Some (RaftClient 9002))]) =
     Done ((waiting_node 1 [(2, Some (RaftClient 9002))])
       \<lparr>client_senders := [],
        trace := [TakeReady, CreateTask 2 (RaftClient 9002) (Message 1 2 ''heartbeat''),
          StoreRestore ''snap'', ApplySnapshot (rd_snapshot ready_batch),
          StoreApply ''x'', Put 5 (RaftRespResponse ''ok''), TimeTime,
          Append [normal_entry ''y''], SetHardState \<lparr>hs_term = 2, hs_vote = 1, hs_commit = 5\<rparr>,
          CreateTask 2 (RaftClient 9002) (Message 1 2 ''append''),
          Advance, AdvanceApply]\<rparr>)"
  by (simp add: on_ready_def ready_env_def quiet_env_def ready_batch_def Let_def
        waiting_node_def fresh_node_def emit_def snapshot_default_def handle_entry_def
        normal_entry_def handle_normal_def decode_ctx1 apply_normal_def pop_sender_def
        snapshot_timer_def persist_ready_def advance_ready_def)

lemma echo_cycle_trace:
  "on_ready echo_env (waiting_node 1 [(2, Some (RaftClient 9002))]) =
     Done ((waiting_node 1 [(2, Some (RaftClient 9002))])
       \<lparr>client_senders := [],
        trace := [TakeReady, CreateTask 2 (RaftClient 9002) (Message 1 2 ''heartbeat''),
          StoreRestore ''snap'', ApplySnapshot (rd_snapshot ready_batch),
          StoreApply ''x'', Put 5 (RaftRespResponse ''ok''), TimeTime,
          Append [normal_entry ''y''], SetHardState \<lparr>hs_term = 2, hs_vote = 1, hs_commit = 5\<rparr>,
          CreateTask 2 (RaftClient 9002) (Message 1 2 ''heartbeat''),
          Advance, AdvanceApply]\<rparr>)"
  by (simp add: on_ready_def echo_env_def echo_batch_def quiet_env_def ready_batch_def Let_def
        waiting_node_def fresh_node_def emit_def snapshot_default_def handle_entry_def
        normal_entry_def handle_normal_def decode_ctx1 apply_normal_def pop_sender_def
        snapshot_timer_def persist_ready_def advance_ready_def)

text \<open>
  A cycle with nothing ready, and the cycles on the two batches: in both the dispatch of
  the persisted messages follows the append.
\<close>

theorem append_precedes_persisted_dispatch_witness:
  "on_ready quiet_env (waiting_node 1 [(2, Some (RaftClient 9002))]) = Done (waiting_node 1 [(2, Some (RaftClient 9002))])
   \<and> (\<exists>ce (n3::raft_node) tl.
        new_events (waiting_node 1 [(2, Some (RaftClient 9002))]) (final (on_ready ready_env (waiting_node 1 [(2, Some (RaftClient 9002))]))) =
          ready_prefix (waiting_node 1 [(2, Some (RaftClient 9002))]) ready_batch @ ce @
            Append (rd_entries ready_batch) # hard_state_events ready_batch @
            sender_tasks (peers n3) (rd_persisted_messages ready_batch) @ Advance # tl)
   \<and> before (StoreRestore (snap_data (rd_snapshot ready_batch))) is_apply_snapshot
        (new_events (waiting_node 1 [(2, Some (RaftClient 9002))]) (final (on_ready ready_env (waiting_node 1 [(2, Some (RaftClient 9002))]))))
   \<and> ApplySnapshot (rd_snapshot ready_batch) \<in> set (new_events (waiting_node 1 [(2, Some (RaftClient 9002))]) (final (on_ready ready_env (waiting_node 1 [(2, Some (RaftClient 9002))]))))
   \<and> Append (rd_entries ready_batch) \<in> set (new_events (waiting_node 1 [(2, Some (RaftClient 9002))]) (final (on_ready ready_env (waiting_node 1 [(2, Some (RaftClient 9002))]))))
   \<and> (\<exists>ce (n3::raft_node) tl.
        new_events (waiting_node 1 [(2, Some (RaftClient 9002))]) (final (on_ready echo_env (waiting_node 1 [(2, Some (RaftClient 9002))]))) =
          ready_prefix (waiting_node 1 [(2, Some (RaftClient 9002))]) echo_batch @ ce @
            Append (rd_entries echo_batch) # hard_state_events echo_batch @
            sender_tasks (peers n3) (rd_persisted_messages echo_batch) @ Advance # tl)
   \<and> before (StoreRestore (snap_data (rd_snapshot echo_batch))) is_apply_snapshot
        (new_events (waiting_node 1 [(2, Some (RaftClient 9002))]) (final (on_ready echo_env (waiting_node 1 [(2, Some (RaftClient 9002))]))))
   \<and> ApplySnapshot (rd_snapshot echo_batch) \<in> set (new_events (waiting_node 1 [(2, Some (RaftClient 9002))]) (final (on_ready echo_env (waiting_node 1 [(2, Some (RaftClient 9002))]))))
   \<and> Append (rd_entries echo_batch) \<in> set (new_events (waiting_node 1 [(2, Some (RaftClient 9002))]) (final (on_ready echo_env (waiting_node 1 [(2, Some (RaftClient 9002))]))))
   \<and> new_events (waiting_node 1 [(2, Some (RaftClient 9002))]) (final (on_ready echo_env (waiting_node 1 [(2, Some (RaftClient 9002))]))) =
       [TakeReady, CreateTask 2 (RaftClient 9002) (Message 1 2 ''heartbeat''),
        StoreRestore ''snap'', ApplySnapshot (rd_snapshot ready_batch),
        StoreApply ''x'', Put 5 (RaftRespResponse ''ok''), TimeTime,
        Append [normal_entry ''y''], SetHardState \<lparr>hs_term = 2, hs_vote = 1, hs_commit = 5\<rparr>,
        CreateTask 2 (RaftClient 9002) (Message 1 2 ''heartbeat''),
        Advance, AdvanceApply]"
proof -
  let ?n = "(waiting_node 1 [(2, Some (RaftClient 9002))])"
  have h0: "raw_ready quiet_env (trace ?n) = None" by (simp add: quiet_env_def)
  note a = append_precedes_persisted_dispatch [where ev = quiet_env and n = ?n,
      THEN conjunct1, THEN mp, OF h0]
  have hr: "raw_ready ready_env (trace ?n) = Some ready_batch"
    by (simp add: ready_env_def quiet_env_def)
  note tr = append_precedes_persisted_dispatch [where ev = ready_env and n = ?n
      and rd = ready_batch, THEN conjunct2, THEN mp, OF hr]
  have sr: "rd_snapshot ready_batch \<noteq> snapshot_default"
    by (simp add: ready_env_def ready_batch_def snapshot_default_def)
  obtain mr where dr: "on_ready ready_env ?n = Done mr"
    using ready_cycle_trace by blast
  from tr obtain ce post where
    er: "new_events ?n (final (on_ready ready_env ?n)) = ready_prefix ?n ready_batch @ ce @ post"
    and shaper: "post = [] \<and> (\<forall>m. on_ready ready_env ?n \<noteq> Done m)
       \<or> (\<exists>n3 tl. handle_committed_entries ready_env (rd_committed_entries ready_batch)
                     (emit (ready_prefix ?n ready_batch) ?n) = Done n3
             \<and> post = Append (rd_entries ready_batch) # hard_state_events ready_batch @
                      sender_tasks (peers n3) (rd_persisted_messages ready_batch) @ Advance # tl)"
    by blast
  have "\<exists>(n3::raft_node) tl.
      post = Append (rd_entries ready_batch) # hard_state_events ready_batch @
             sender_tasks (peers n3) (rd_persisted_messages ready_batch) @ Advance # tl"
    using shaper
  proof
    assume "post = [] \<and> (\<forall>m. on_ready ready_env ?n \<noteq> Done m)"
    then have "on_ready ready_env ?n \<noteq> Done mr" by (elim conjE allE)
    with dr show ?thesis by (elim notE)
  next
    assume "\<exists>n3 tl. handle_committed_entries ready_env (rd_committed_entries ready_batch)
                     (emit (ready_prefix ?n ready_batch) ?n) = Done n3
             \<and> post = Append (rd_entries ready_batch) # hard_state_events ready_batch @
                      sender_tasks (peers n3) (rd_persisted_messages ready_batch) @ Advance # tl"
    then obtain n3 :: raft_node and tl where
      "post = Append (rd_entries ready_batch) # hard_state_events ready_batch @
              sender_tasks (peers n3) (rd_persisted_messages ready_batch) @ Advance # tl"
      by (elim exE conjE)
    then show ?thesis by (intro exI)
  qed
  then obtain n3 :: raft_node and tl where
    "post = Append (rd_entries ready_batch) # hard_state_events ready_batch @
            sender_tasks (peers n3) (rd_persisted_messages ready_batch) @ Advance # tl"
    by (elim exE)
  with er have c1r: "\<exists>ce (n3::raft_node) tl.
        new_events ?n (final (on_ready ready_env ?n)) =
          ready_prefix ?n ready_batch @ ce @
            Append (rd_entries ready_batch) # hard_state_events ready_batch @
            sender_tasks (peers n3) (rd_persisted_messages ready_batch) @ Advance # tl"
    by blast
  have c2r: "before (StoreRestore (snap_data (rd_snapshot ready_batch))) is_apply_snapshot
        (new_events ?n (final (on_ready ready_env ?n)))"
    using tr by blast
  have c3r: "ApplySnapshot (rd_snapshot ready_batch) \<in> set (new_events ?n (final (on_ready ready_env ?n)))"
    using tr sr by blast
  have "Append (rd_entries ready_batch) \<in> set (new_events ?n mr)"
    using tr dr by blast
  then have c4r: "Append (rd_entries ready_batch) \<in> set (new_events ?n (final (on_ready ready_env ?n)))"
    by (simp only: dr final.simps)
  have he: "raw_ready echo_env (trace ?n) = Some echo_batch"
    by (simp add: echo_env_def quiet_env_def)
  note te = append_precedes_persisted_dispatch [where ev = echo_env and n = ?n
      and rd = echo_batch, THEN conjunct2, THEN mp, OF he]
  have se: "rd_snapshot echo_batch \<noteq> snapshot_default"
    by (simp add: echo_batch_def ready_batch_def snapshot_default_def)
  obtain me where de: "on_ready echo_env ?n = Done me"
    using echo_cycle_trace by blast
  from te obtain ce post where
    ee: "new_events ?n (final (on_ready echo_env ?n)) = ready_prefix ?n echo_batch @ ce @ post"
    and shapee: "post = [] \<and> (\<forall>m. on_ready echo_env ?n \<noteq> Done m)
       \<or> (\<exists>n3 tl. handle_committed_entries echo_env (rd_committed_entries echo_batch)
                     (emit (ready_prefix ?n echo_batch) ?n) = Done n3
             \<and> post = Append (rd_entries echo_batch) # hard_state_events echo_batch @
                      sender_tasks (peers n3) (rd_persisted_messages echo_batch) @ Advance # tl)"
    by blast
  have "\<exists>(n3::raft_node) tl.
      post = Append (rd_entries echo_batch) # hard_state_events echo_batch @
             sender_tasks (peers n3) (rd_persisted_messages echo_batch) @ Advance # tl"
    using shapee
  proof
    assume "post = [] \<and> (\<forall>m. on_ready echo_env ?n \<noteq> Done m)"
    then have "on_ready echo_env ?n \<noteq> Done me" by (elim conjE allE)
    with de show ?thesis by (elim notE)
  next
    assume "\<exists>n3 tl. handle_committed_entries echo_env (rd_committed_entries echo_batch)
                     (emit (ready_prefix ?n echo_batch) ?n) = Done n3
             \<and> post = Append (rd_entries echo_batch) # hard_state_events echo_batch @
                      sender_tasks (peers n3) (rd_persisted_messages echo_batch) @ Advance # tl"
    then obtain n3 :: raft_node and tl where
      "post = Append (rd_entries echo_batch) # hard_state_events echo_batch @
              sender_tasks (peers n3) (rd_persisted_messages echo_batch) @ Advance # tl"
      by (elim exE conjE)
    then show ?thesis by (intro exI)
  qed
  then obtain n3 :: raft_node and tl where
    "post = Append (rd_entries echo_batch) # hard_state_events echo_batch @
            sender_tasks (peers n3) (rd_persisted_messages echo_batch) @ Advance # tl"
    by (elim exE)
  with ee have c1e: "\<exists>ce (n3::raft_node) tl.
        new_events ?n (final (on_ready echo_env ?n)) =
          ready_prefix ?n echo_batch @ ce @
            Append (rd_entries echo_batch) # hard_state_events echo_batch @
            sender_tasks (peers n3) (rd_persisted_messages echo_batch) @ Advance # tl"
    by blast
  have c2e: "before (StoreRestore (snap_data (rd_snapshot echo_batch))) is_apply_snapshot
        (new_events ?n (final (on_ready echo_env ?n)))"
    using te by blast
  have c3e: "ApplySnapshot (rd_snapshot echo_batch) \<in> set (new_events ?n (final (on_ready echo_env ?n)))"
    using te se by blast
  have "Append (rd_entries echo_batch) \<in> set (new_events ?n me)"
    using te de by blast
  then have c4e: "Append (rd_entries echo_batch) \<in> set (new_events ?n (final (on_ready echo_env ?n)))"
    by (simp only: de final.simps)
  have d: "new_events ?n (final (on_ready echo_env ?n)) =
       [TakeReady, CreateTask 2 (RaftClient 9002) (Message 1 2 ''heartbeat''),
        StoreRestore ''snap'', ApplySnapshot (rd_snapshot ready_batch),
        StoreApply ''x'', Put 5 (RaftRespResponse ''ok''), TimeTime,
        Append [normal_entry ''y''], SetHardState \<lparr>hs_term = 2, hs_vote = 1, hs_commit = 5\<rparr>,
        CreateTask 2 (RaftClient 9002) (Message 1 2 ''heartbeat''),
        Advance, AdvanceApply]"
    by (subst echo_cycle_trace) (simp add: new_events_def waiting_node_def fresh_node_def)
  show ?thesis
    by (intro conjI a c1r c2r c3r c4r c1e c2e c3e c4e d)
qed

section \<open>Removal of the node itself\<close>

lemma quit_stepI:
  "node_id m = node_id n \<Longrightarrow> (should_quit n \<longrightarrow> should_quit m) \<Longrightarrow> trace m = trace n @ xs \<Longrightarrow>
     (list_ex (applies_self_removal (node_id n)) xs \<longrightarrow> should_quit m) \<Longrightarrow> quit_step n m"
  by (simp add: quit_step_def new_events_def)

lemma quit_step_refl: "quit_step n n"
  by (simp add: quit_step_def new_events_def)

lemma quit_step_trans:
  assumes "quit_step n m" "quit_step m k"
  shows "quit_step n k"
proof -
  from assms have t: "trace k = trace n @ (new_events n m @ new_events m k)"
    by (simp add: quit_step_def)
  from assms show ?thesis
    by (intro quit_stepI [OF _ _ t]) (auto simp: quit_step_def)
qed

lemma quit_step_emit:
  "\<not> list_ex (applies_self_removal (node_id n)) es \<Longrightarrow> quit_step n (emit es n)"
  by (rule quit_stepI [where xs = es]) (simp_all add: emit_simps)

lemma handler_event_cases:
  "handler_event x \<Longrightarrow> (\<exists>change. x = ApplyConfChange change) \<or> \<not> applies_self_removal i x"
  by (cases x) simp_all

lemma sender_tasks_no_removal:
  "\<not> list_ex (applies_self_removal i) (sender_tasks ps ms)"
  by (induction ms) (simp_all split: option.splits)

lemma quit_step_send_messages: "quit_step n (send_messages ms n)"
  by (simp add: send_messages_tasks quit_step_emit sender_tasks_no_removal)

lemma quit_step_apply_normal: "quit_step n (apply_normal ev sq e n)"
  by (rule quit_stepI [where xs = "apply_events ev sq e n"])
     (simp_all add: apply_normal_fields apply_events_def split: option.splits)

lemma quit_step_snapshot_timer: "quit_step n (snapshot_timer ev n)"
proof (cases "time_time ev (trace n) > last_snap_time n + 15")
  case True
  then show ?thesis
    by (intro quit_stepI [where xs = "[TimeTime, TimeTime, StoreSnapshot,
             Compact (get_applied ev (trace n @ [TimeTime, TimeTime])),
             CreateSnapshot (store_snapshot ev (trace n @ [TimeTime, TimeTime]))]"])
       (simp_all add: snapshot_timer_fields snapshot_timer_trace)
next
  case False
  then show ?thesis
    by (intro quit_stepI [where xs = "[TimeTime]"])
       (simp_all add: snapshot_timer_fields snapshot_timer_trace)
qed

lemma quit_step_handle_normal: "handle_normal ev e n = Done m \<Longrightarrow> quit_step n m"
  using quit_step_trans [OF quit_step_apply_normal quit_step_snapshot_timer]
  by (auto simp: handle_normal_def split: option.splits)

lemma update_registry_quit:
  "update_registry ev change n = Done n1 \<Longrightarrow>
     node_id n1 = node_id n \<and> trace n1 = trace n \<and> (should_quit n \<longrightarrow> should_quit n1)
     \<and> (get_change_type change = RemoveNode \<and> get_node_id change = node_id n \<longrightarrow>
          should_quit n1 \<and> peers n1 = peers n)"
  by (auto simp: update_registry_def split: conf_change_type.splits option.splits if_splits)

lemma reply_config_change_fields:
  "reply_config_change sq change n = Done m \<Longrightarrow>
     node_id m = node_id n \<and> should_quit m = should_quit n \<and> peers m = peers n"
  by (auto simp: reply_config_change_def pop_sender_def emit_simps
        split: option.splits conf_change_type.splits sum.splits)

lemma quit_step_reply:
  assumes "reply_config_change sq change n = Done m"
  shows "quit_step n m"
proof -
  note f = reply_config_change_fields [OF assms]
  from reply_config_change_done [OF assms]
  have "trace m = trace n \<or> (\<exists>c r. trace m = trace n @ [Put c r])"
    by (auto split: option.splits)
  then show ?thesis
  proof
    assume "trace m = trace n"
    then show ?thesis using f by (intro quit_stepI [where xs = "[]"]) simp_all
  next
    assume "\<exists>c r. trace m = trace n @ [Put c r]"
    then obtain c r where "trace m = trace n @ [Put c r]" by blast
    then show ?thesis using f by (intro quit_stepI [where xs = "[Put c r]"]) simp_all
  qed
qed

lemma quit_step_handle_config_change:
  assumes "handle_config_change ev e n = Done m"
  shows "quit_step n m"
proof -
  from assms obtain sq change n1 where
    u: "update_registry ev change n = Done n1" and
    r: "reply_config_change sq change (apply_change ev change n1) = Done m"
    by (auto simp: handle_config_change_def split: option.splits outcome.splits)
  note u' = update_registry_quit [OF u]
  let ?n2 = "apply_change ev change n1"
  obtain zs where zs: "trace ?n2 = trace n @ ApplyConfChange change # zs"
      "\<not> list_ex (applies_self_removal (node_id n)) zs"
    by (cases "apply_conf_change ev (trace n1) change")
       (simp_all add: apply_change_trace u')
  have a: "quit_step n ?n2"
    using u' zs
    by (intro quit_stepI [where xs = "ApplyConfChange change # zs"])
       (auto simp: apply_change_fields)
  show ?thesis using quit_step_trans [OF a quit_step_reply [OF r]] .
qed

lemma quit_step_handle_entry: "handle_entry ev e n = Done m \<Longrightarrow> quit_step n m"
  using quit_step_handle_normal [of ev e n m] quit_step_handle_config_change [of ev e n m]
  by (auto simp: handle_entry_def quit_step_refl split: if_splits entry_type.splits)

lemma quit_step_handle_committed_entries:
  "handle_committed_entries ev es n = Done m \<Longrightarrow> quit_step n m"
proof (induction es arbitrary: n)
  case Nil
  then show ?case by (simp add: quit_step_refl)
next
  case (Cons e es)
  from Cons.prems obtain k where k: "handle_entry ev e n = Done k"
      "handle_committed_entries ev es k = Done m"
    by (auto split: outcome.splits)
  show ?case
    using quit_step_trans [OF quit_step_handle_entry [OF k(1)] Cons.IH [OF k(2)]] .
qed

lemma quit_step_persist_ready: "quit_step n (persist_ready rd n)"
proof -
  have 1: "quit_step n (emit (Append (rd_entries rd) #
       (case rd_hs rd of Some hs \<Rightarrow> [SetHardState hs] | None \<Rightarrow> [])) n)"
    by (rule quit_step_emit) (simp split: option.splits)
  have 2: "persist_ready rd n = send_messages (rd_persisted_messages rd)
      (emit (Append (rd_entries rd) #
       (case rd_hs rd of Some hs \<Rightarrow> [SetHardState hs] | None \<Rightarrow> [])) n)"
    by (cases "rd_persisted_messages rd = []")
       (simp_all add: persist_ready_def Let_def emit_emit split: option.splits)
  show ?thesis unfolding 2 using quit_step_trans [OF 1 quit_step_send_messages] .
qed

lemma quit_step_advance_ready:
  assumes "advance_ready ev n = Done m"
  shows "quit_step n m"
proof -
  let ?l = "raw_advance ev (trace n)"
  let ?c = "case lrd_commit_index ?l of
              Some c \<Rightarrow> (if c \<noteq> 0 then [SetHardStateCommit c] else []) | None \<Rightarrow> []"
  let ?n2 = "emit (Advance # ?c) n"
  let ?n3 = "send_messages (lrd_messages ?l) ?n2"
  have n2: "(case lrd_commit_index ?l of
         Some c \<Rightarrow> (if c \<noteq> 0 then emit [SetHardStateCommit c] (emit [Advance] n)
                    else emit [Advance] n)
       | None \<Rightarrow> emit [Advance] n) = ?n2"
    by (simp add: emit_emit split: option.splits)
  from assms obtain k where k: "handle_committed_entries ev (lrd_committed_entries ?l) ?n3 = Done k"
      "m = emit [AdvanceApply] k"
    by (auto simp: advance_ready_def Let_def n2 split: outcome.splits)
  have 1: "quit_step n ?n2"
    by (rule quit_step_emit) (simp split: option.splits)
  have 2: "quit_step ?n2 ?n3" by (rule quit_step_send_messages)
  have 3: "quit_step ?n3 k" by (rule quit_step_handle_committed_entries [OF k(1)])
  have 4: "quit_step k m" unfolding k(2) by (rule quit_step_emit) simp
  show ?thesis
    using quit_step_trans [OF quit_step_trans [OF quit_step_trans [OF 1 2] 3] 4] .
qed

lemma quit_step_on_ready:
  assumes "on_ready ev n = Done m"
  shows "quit_step n m"
proof (cases "raw_ready ev (trace n)")
  case None
  with assms show ?thesis by (simp add: on_ready_def quit_step_refl)
next
  case (Some rd)
  let ?snap = "if rd_snapshot rd \<noteq> snapshot_default
         then [StoreRestore (snap_data (rd_snapshot rd)), ApplySnapshot (rd_snapshot rd)]
         else []"
  let ?n0 = "emit [TakeReady] n"
  let ?n1 = "send_messages (rd_messages rd) ?n0"
  let ?n2 = "emit ?snap ?n1"
  have n2: "(if rd_snapshot rd \<noteq> snapshot_default
             then emit [StoreRestore (snap_data (rd_snapshot rd)), ApplySnapshot (rd_snapshot rd)] ?n1
             else ?n1) = ?n2"
    by (simp add: emit_nil)
  from assms Some obtain n3 where n3:
    "handle_committed_entries ev (rd_committed_entries rd) ?n2 = Done n3"
    "advance_ready ev (persist_ready rd n3) = Done m"
    by (auto simp: on_ready_def Let_def n2 split: outcome.splits)
  have 0: "quit_step n ?n0" by (rule quit_step_emit) simp
  have 1: "quit_step ?n0 ?n1" by (rule quit_step_send_messages)
  have 2: "quit_step ?n1 ?n2" by (rule quit_step_emit) simp
  have 3: "quit_step ?n2 n3" by (rule quit_step_handle_committed_entries [OF n3(1)])
  have 4: "quit_step n3 (persist_ready rd n3)" by (rule quit_step_persist_ready)
  have 5: "quit_step (persist_ready rd n3) m" by (rule quit_step_advance_ready [OF n3(2)])
  show ?thesis
    using quit_step_trans [OF quit_step_trans [OF quit_step_trans [OF quit_step_trans
      [OF quit_step_trans [OF 0 1] 2] 3] 4] 5] .
qed


lemma quit_step_send_wrong_leader: "send_wrong_leader ev c n = Done m \<Longrightarrow> quit_step n m"
  by (auto simp: send_wrong_leader_def Let_def quit_step_emit split: option.splits)

lemma quit_step_fields:
  "node_id m = node_id n \<Longrightarrow> should_quit m = should_quit n \<Longrightarrow> trace m = trace n \<Longrightarrow>
     quit_step n m"
  by (rule quit_stepI [where xs = "[]"]) simp_all

lemma quit_step_record_emit:
  "\<not> applies_self_removal (node_id n) x \<Longrightarrow> quit_step n (emit [x] (record_sender c n))"
  by (rule quit_stepI [where xs = "[x]"]) (simp_all add: record_sender_fields emit_simps)

lemma quit_step_reserve:
  "reserve_next_peer_id n = (i, k) \<Longrightarrow> quit_step n (emit [Put c (RaftRespIdReserved i)] k)"
  by (rule quit_stepI [where xs = "[Put c (RaftRespIdReserved i)]"])
     (auto simp: reserve_next_peer_id_def Let_def emit_simps)

lemma quit_step_dispatch:
  assumes "dispatch ev message n = Done m"
  shows "quit_step n m"
proof (cases message)
  case None
  with assms show ?thesis by (simp add: quit_step_refl)
next
  case (Some req)
  show ?thesis
  proof (cases req)
    case (MessageConfigChange change c)
    with assms Some show ?thesis
      by (auto simp: Let_def quit_step_send_wrong_leader quit_step_record_emit
            split: if_splits)
  next
    case (MessagePropose proposal c)
    with assms Some show ?thesis
      by (auto simp: Let_def quit_step_send_wrong_leader quit_step_record_emit
            split: if_splits)
  next
    case (MessageRequestId c)
    with assms Some show ?thesis
      by (auto simp: quit_step_send_wrong_leader quit_step_reserve
            split: if_splits prod.splits)
  next
    case (MessageRaft msg)
    with assms Some show ?thesis by (auto simp: quit_step_emit)
  next
    case (MessageReportUnreachable i)
    with assms Some show ?thesis by (auto simp: quit_step_emit)
  qed
qed

lemma quit_step_iteration:
  assumes "iteration ev n = Done m"
  shows "quit_step n m"
proof -
  from assms obtain n2 where n2: "dispatch ev (chan_get ev (trace n)) (emit [ChanGet] n) = Done n2"
      "on_ready ev (emit [Tick] n2) = Done m"
    by (auto simp: iteration_def Let_def split: outcome.splits)
  have 1: "quit_step n (emit [ChanGet] n)" by (rule quit_step_emit) simp
  have 2: "quit_step (emit [ChanGet] n) n2" by (rule quit_step_dispatch [OF n2(1)])
  have 3: "quit_step n2 (emit [Tick] n2)" by (rule quit_step_emit) simp
  have 4: "quit_step (emit [Tick] n2) m" by (rule quit_step_on_ready [OF n2(2)])
  show ?thesis
    using quit_step_trans [OF quit_step_trans [OF quit_step_trans [OF 1 2] 3] 4] .
qed

lemma run_quit: "should_quit n \<Longrightarrow> run ev n = Some (Done n)"
  by (subst run.simps) simp

lemma run_one_iteration:
  "\<not> should_quit n \<Longrightarrow> iteration ev n = Done m \<Longrightarrow> should_quit m \<Longrightarrow>
     run ev n = Some (Done m)"
  by (subst run.simps) (simp add: run_quit)

lemma reply_remove_node_done:
  "get_change_type change = RemoveNode \<Longrightarrow> \<exists>m. reply_config_change sq change n = Done m"
  by (cases "map_of (client_senders n) sq")
     (simp_all add: reply_config_change_def pop_sender_def)

text \<open>
  C8. The handler of a committed \<open>RemoveNode\<close> whose target is the node's own id
  completes with \<open>should_quit\<close> set and the peer registry as it was. \<open>run\<close> started
  with \<open>should_quit\<close> set returns at once, the node and its history unchanged: nothing is
  dequeued, nothing proposed. And when, during an iteration that completes, the removal of
  the node's own id is applied, \<open>should_quit\<close> holds at the end of that iteration and
  \<open>run\<close> returns with the state that this iteration left: the loop exits at the start of
  the next one.
\<close>

theorem self_removal_exits_loop:
  "(conf_change_decode ev (get_data e) = Some change \<and> decode_u64 ev (get_context e) = Some sq
      \<and> get_change_type change = RemoveNode \<and> get_node_id change = node_id n \<longrightarrow>
      (\<exists>m. handle_config_change ev e n = Done m \<and> should_quit m \<and> peers m = peers n))
   \<and> (should_quit n \<longrightarrow> run ev n = Some (Done n))
   \<and> (\<not> should_quit n \<and> iteration ev n = Done k
      \<and> ApplyConfChange change \<in> set (new_events n k)
      \<and> get_change_type change = RemoveNode \<and> get_node_id change = node_id n \<longrightarrow>
      should_quit k \<and> run ev n = Some (Done k))"
proof -
  have a: "\<exists>m. handle_config_change ev e n = Done m \<and> should_quit m \<and> peers m = peers n"
    if h: "conf_change_decode ev (get_data e) = Some change
      \<and> decode_u64 ev (get_context e) = Some sq
      \<and> get_change_type change = RemoveNode \<and> get_node_id change = node_id n"
  proof -
    let ?n1 = "n\<lparr>should_quit := True\<rparr>"
    let ?n2 = "apply_change ev change ?n1"
    have u: "update_registry ev change n = Done ?n1"
      using h by (simp add: update_registry_def)
    obtain m where m: "reply_config_change sq change ?n2 = Done m"
      using h reply_remove_node_done by blast
    note f = reply_config_change_fields [OF m]
    have "handle_config_change ev e n = Done m"
      using h u m by (simp add: handle_config_change_def)
    moreover have "should_quit m" "peers m = peers n"
      using f by (simp_all add: apply_change_fields)
    ultimately show ?thesis by blast
  qed
  have b: "run ev n = Some (Done n)" if "should_quit n"
    using that by (rule run_quit)
  have c: "should_quit k \<and> run ev n = Some (Done k)"
    if h: "\<not> should_quit n \<and> iteration ev n = Done k
      \<and> ApplyConfChange change \<in> set (new_events n k)
      \<and> get_change_type change = RemoveNode \<and> get_node_id change = node_id n"
  proof -
    from h have q: "quit_step n k" using quit_step_iteration [of ev n k] by blast
    from h have "list_ex (applies_self_removal (node_id n)) (new_events n k)"
      by (auto simp: list_ex_iff intro!: bexI [of _ "ApplyConfChange change"])
    with q have sk: "should_quit k" by (simp add: quit_step_def)
    with h show ?thesis by (simp add: run_one_iteration)
  qed
  show ?thesis using a b c by blast
qed


text \<open>One iteration of the leader \<open>1\<close> on the batch that commits its own removal.\<close>

lemma leave_iteration:
  "iteration leave_env (waiting_node 1 [(2, Some (RaftClient 9002))]) = Done left_node"
  by (simp add: iteration_def on_ready_def leave_env_def quiet_env_def leave_batch_def
        leave_change_def left_node_def Let_def waiting_node_def fresh_node_def emit_def
        handle_entry_def conf_entry_def handle_config_change_def decode_ctx1
        update_registry_def apply_change_def reply_config_change_def pop_sender_def
        persist_ready_def advance_ready_def)

text \<open>
  The leader \<open>1\<close> with peer \<open>2\<close>: the handler sets the flag, and \<open>run\<close> performs
  the one iteration that handles the removal and returns.
\<close>

theorem self_removal_exits_loop_witness:
  "(\<exists>m. handle_config_change leave_env conf_entry (waiting_node 1 [(2, Some (RaftClient 9002))])
          = Done m
        \<and> should_quit m \<and> peers m = peers (waiting_node 1 [(2, Some (RaftClient 9002))]))
   \<and> run leave_env left_node = Some (Done left_node)
   \<and> should_quit left_node
   \<and> run leave_env (waiting_node 1 [(2, Some (RaftClient 9002))]) = Some (Done left_node)"
proof -
  let ?n = "waiting_node 1 [(2, Some (RaftClient 9002))]"
  have h1: "conf_change_decode leave_env (get_data conf_entry) = Some leave_change
      \<and> decode_u64 leave_env (get_context conf_entry) = Some 1
      \<and> get_change_type leave_change = RemoveNode \<and> get_node_id leave_change = node_id ?n"
    by (simp add: leave_env_def quiet_env_def conf_entry_def decode_ctx1 leave_change_def
          waiting_node_def fresh_node_def)
  note c1 = self_removal_exits_loop [where ev = leave_env and e = conf_entry
      and change = leave_change and sq = 1 and n = ?n, THEN conjunct1, THEN mp, OF h1]
  have q: "should_quit left_node" by (simp add: left_node_def)
  note c2 = self_removal_exits_loop [where ev = leave_env and n = left_node,
      THEN conjunct2, THEN conjunct1, THEN mp, OF q]
  have h3: "\<not> should_quit ?n \<and> iteration leave_env ?n = Done left_node
      \<and> ApplyConfChange leave_change \<in> set (new_events ?n left_node)
      \<and> get_change_type leave_change = RemoveNode \<and> get_node_id leave_change = node_id ?n"
    using leave_iteration
    by (simp add: new_events_def left_node_def leave_change_def waiting_node_def fresh_node_def)
  note c3 = self_removal_exits_loop [where ev = leave_env and n = ?n and k = left_node
      and change = leave_change, THEN conjunct2, THEN conjunct2, THEN mp, OF h3]
  show ?thesis using c1 c2 c3 by blast
qed

end
